theory Spec2Isabelle
  imports Main "HOL-Library.Word"
begin

section \<open>Go values used by the bandwidth package\<close>

text \<open>
  Go's \<^verbatim>\<open>int\<close> is a 64-bit two's-complement integer on the platforms the profiler
  targets. Count values are kept as 64-bit words, so that \<^verbatim>\<open>+=\<close> wraps as it does in Go.
  Ranks and call identifiers are loop counters and map keys: the only arithmetic on them is
  \<^verbatim>\<open>rank++\<close> under the guard \<^verbatim>\<open>rank < ranks\<close>, which cannot overflow, so they are
  modelled as mathematical integers.
\<close>

type_synonym go_int = "64 word"

text \<open>A Go \<^verbatim>\<open>error\<close> value is represented by its message.\<close>

type_synonym error = string

subsection \<open>IEEE-754 binary64\<close>

text \<open>
  A \<^verbatim>\<open>float64\<close> is either finite, with a sign bit, a significand \<open>m < 2^53\<close> and an
  exponent \<open>e\<close> (the value is \<open>(-1)^s * m * 2^e\<close>), an infinity, or NaN. Finite values are
  kept in the canonical form of the format: \<open>-1074 \<le> e \<le> 971\<close>, and \<open>2^52 \<le> m\<close> unless
  \<open>e = -1074\<close> (subnormals and the two zeros).
\<close>

datatype float64 = Finite bool nat int | Infinity bool | NaN

text \<open>The zero value of the type, returned by a Go map for an absent key.\<close>

definition f64_zero :: float64 where
  "f64_zero = Finite False 0 (-1074)"

text \<open>Number of binary digits of a natural number.\<close>

fun bits :: "nat \<Rightarrow> nat" where
  "bits n = (if n = 0 then 0 else Suc (bits (n div 2)))"

declare bits.simps [simp del]

text \<open>Quotient \<open>n / d\<close> rounded to the nearest integer, ties to even.\<close>

definition rne :: "nat \<Rightarrow> nat \<Rightarrow> nat" where
  "rne n d =
     (let q = n div d; r = n mod d
      in if 2 * r < d then q
         else if d < 2 * r then q + 1
         else if even q then q else q + 1)"

text \<open>
  \<open>f64_round s n d\<close> is the binary64 nearest to the positive rational \<open>n / d\<close>
  (round to nearest, ties to even), with sign \<open>s\<close>; it overflows to an infinity.
\<close>

definition f64_round :: "bool \<Rightarrow> nat \<Rightarrow> nat \<Rightarrow> float64" where
  "f64_round s n d =
     (let k = int (bits n) - int (bits d);
          fl = (if (if 0 \<le> k then d * 2 ^ nat k \<le> n else d \<le> n * 2 ^ nat (- k))
                then k else k - 1);
          e = max (fl - 52) (- 1074);
          m = (if 0 \<le> e then rne n (d * 2 ^ nat e) else rne (n * 2 ^ nat (- e)) d);
          m' = (if m = 2 ^ 53 then 2 ^ 52 else m);
          e' = (if m = 2 ^ 53 then e + 1 else e)
      in if 971 < e' then Infinity s else Finite s m' e')"

text \<open>The conversion \<^verbatim>\<open>float64(i)\<close> of an integer.\<close>

definition f64_of_int :: "int \<Rightarrow> float64" where
  "f64_of_int i = (if i = 0 then f64_zero else f64_round (i < 0) (nat \<bar>i\<bar>) 1)"

definition float64 :: "go_int \<Rightarrow> float64" where
  "float64 c = f64_of_int (sint c)"

text \<open>The quotient \<^verbatim>\<open>x / y\<close>.\<close>

fun f64_div :: "float64 \<Rightarrow> float64 \<Rightarrow> float64" where
  "f64_div NaN _ = NaN"
| "f64_div _ NaN = NaN"
| "f64_div (Infinity _) (Infinity _) = NaN"
| "f64_div (Infinity s) (Finite t _ _) = Infinity (s \<noteq> t)"
| "f64_div (Finite s _ _) (Infinity t) = Finite (s \<noteq> t) 0 (- 1074)"
| "f64_div (Finite s m1 e1) (Finite t m2 e2) =
     (if m2 = 0 then (if m1 = 0 then NaN else Infinity (s \<noteq> t))
      else if m1 = 0 then Finite (s \<noteq> t) 0 (- 1074)
      else if e2 \<le> e1 then f64_round (s \<noteq> t) (m1 * 2 ^ nat (e1 - e2)) m2
      else f64_round (s \<noteq> t) m1 (m2 * 2 ^ nat (e2 - e1)))"

text \<open>The comparisons \<^verbatim>\<open>x == 0\<close> and \<^verbatim>\<open>0 < x\<close>; both are false on NaN.\<close>

fun f64_is_zero :: "float64 \<Rightarrow> bool" where
  "f64_is_zero (Finite _ m _) = (m = 0)"
| "f64_is_zero _ = False"

fun f64_positive :: "float64 \<Rightarrow> bool" where
  "f64_positive (Finite s m _) = (\<not> s \<and> 0 < m)"
| "f64_positive (Infinity s) = (\<not> s)"
| "f64_positive NaN = False"

text \<open>The comparison of magnitudes \<open>|x| \<le> |y|\<close>; false on NaN.\<close>

fun f64_abs_le :: "float64 \<Rightarrow> float64 \<Rightarrow> bool" where
  "f64_abs_le (Finite _ m1 e1) (Finite _ m2 e2) =
     (if e1 \<le> e2 then m1 \<le> m2 * 2 ^ nat (e2 - e1) else m1 * 2 ^ nat (e1 - e2) \<le> m2)"
| "f64_abs_le (Finite _ _ _) (Infinity _) = True"
| "f64_abs_le (Infinity _) (Infinity _) = True"
| "f64_abs_le _ _ = False"

subsection \<open>Formatting with \<^verbatim>\<open>%d\<close> and \<^verbatim>\<open>%.2f\<close>\<close>

fun digits :: "nat \<Rightarrow> string" where
  "digits n =
     (if n < 10 then [''0123456789'' ! n]
      else digits (n div 10) @ [''0123456789'' ! (n mod 10)])"

declare digits.simps [simp del]

definition fmt_d :: "int \<Rightarrow> string" where
  "fmt_d i = (if i < 0 then ''-'' @ digits (nat (- i)) else digits (nat i))"

text \<open>
  \<^verbatim>\<open>%.2f\<close>: the exact value is rounded to a whole number of hundredths, ties to even,
  and printed with two digits after the point; the sign bit is printed also for \<open>-0\<close>.
\<close>

definition fmt_2f :: "float64 \<Rightarrow> string" where
  "fmt_2f x =
     (case x of
        NaN \<Rightarrow> ''NaN''
      | Infinity s \<Rightarrow> (if s then ''-Inf'' else ''+Inf'')
      | Finite s m e \<Rightarrow>
          (let h = (if 0 \<le> e then m * 2 ^ nat e * 100 else rne (m * 100) (2 ^ nat (- e)))
           in (if s then ''-'' else '''') @ digits (h div 100) @ ''.''
              @ [''0123456789'' ! (h mod 100 div 10), ''0123456789'' ! (h mod 10)]))"


section \<open>Package \<^verbatim>\<open>bandwidth\<close>\<close>

subsection \<open>Maps and results\<close>

text \<open>
  A Go map is a partial function. Reading an absent key (also from a nil map) yields the
  zero value of the element type; the readers below write that default out.
\<close>

definition geti :: "(int \<rightharpoonup> go_int) \<Rightarrow> int \<Rightarrow> go_int" where
  "geti m k = (case m k of None \<Rightarrow> 0 | Some v \<Rightarrow> v)"

definition getf :: "(int \<rightharpoonup> float64) \<Rightarrow> int \<Rightarrow> float64" where
  "getf m k = (case m k of None \<Rightarrow> f64_zero | Some v \<Rightarrow> v)"

text \<open>Reading the inner map of a map of maps: an absent key yields the nil map.\<close>

definition getm :: "(int \<rightharpoonup> (int \<rightharpoonup> 'v)) \<Rightarrow> int \<Rightarrow> (int \<rightharpoonup> 'v)" where
  "getm m k = (case m k of None \<Rightarrow> Map.empty | Some v \<Rightarrow> v)"

record CallData =
  SendData :: "int \<rightharpoonup> go_int"
  RecvData :: "int \<rightharpoonup> go_int"
  SendRankBW :: "int \<rightharpoonup> float64"
  RecvRankBW :: "int \<rightharpoonup> float64"
  ScaledSendRankBW :: "int \<rightharpoonup> float64"
  ScaledSendRankBWUnit :: string
  ScaledRecvRankBW :: "int \<rightharpoonup> float64"
  ScaledRecvRankBWUnit :: string

record CallsData =
  CallData :: "int \<rightharpoonup> CallData"

text \<open>
  A Go function with results \<^verbatim>\<open>(*T, error)\<close> either returns the pair, where each
  component may be nil, or panics.
\<close>

datatype 'a go_result = Return "'a option" "error option" | Panic

text \<open>
  \<^verbatim>\<open>scale.Float64s\<close> belongs to package \<^verbatim>\<open>internal/pkg/scale\<close>, which is not part of
  the sources at hand. The functions of this package take it as their first argument: given
  the unit and the values, it returns an error, or the new unit and the scaled values.
\<close>

type_synonym scaler = "string \<Rightarrow> float64 list \<Rightarrow> error + string \<times> float64 list"

text \<open>How one iteration of a loop body can leave the function early.\<close>

datatype abort = ReturnError error | IndexOutOfRange

subsection \<open>\<^verbatim>\<open>GetFromCallCounts\<close>\<close>

text \<open>The freshly allocated \<^verbatim>\<open>CallData\<close>: six empty maps, two empty strings.\<close>

definition newCallData :: CallData where
  "newCallData =
     \<lparr>SendData = Map.empty, RecvData = Map.empty,
      SendRankBW = Map.empty, RecvRankBW = Map.empty,
      ScaledSendRankBW = Map.empty, ScaledSendRankBWUnit = [],
      ScaledRecvRankBW = Map.empty, ScaledRecvRankBWUnit = []\<rparr>"

text \<open>The two assignments that open the loop body.\<close>

definition setRankBW ::
  "(int \<rightharpoonup> go_int) \<Rightarrow> (int \<rightharpoonup> go_int) \<Rightarrow> (int \<rightharpoonup> float64) \<Rightarrow> int \<Rightarrow> CallData \<Rightarrow> CallData" where
  "setRankBW sendCounts recvCounts execTimes rank d =
     (let d1 = d\<lparr>SendRankBW :=
                  (SendRankBW d)(rank \<mapsto> f64_div (float64 (geti sendCounts rank)) (getf execTimes rank))\<rparr>
      in d1\<lparr>RecvRankBW :=
              (RecvRankBW d1)(rank \<mapsto> f64_div (float64 (geti recvCounts rank)) (getf execTimes rank))\<rparr>)"

text \<open>The first \<^verbatim>\<open>if\<close> of the body: the send bandwidth in a more readable unit.\<close>

definition scaleSend :: "scaler \<Rightarrow> int \<Rightarrow> CallData \<Rightarrow> abort + CallData" where
  "scaleSend scale_Float64s rank d =
     (if \<not> f64_is_zero (getf (SendRankBW d) rank) then
        (case scale_Float64s ''B/s'' [getf (SendRankBW d) rank] of
           Inl err \<Rightarrow> Inl (ReturnError err)
         | Inr (unit, scaledSendBW) \<Rightarrow>
             (case scaledSendBW of
                [] \<Rightarrow> Inl IndexOutOfRange
              | v # _ \<Rightarrow>
                  Inr (d\<lparr>ScaledSendRankBWUnit := unit,
                         ScaledSendRankBW := (ScaledSendRankBW d)(rank \<mapsto> v)\<rparr>)))
      else
        Inr (d\<lparr>ScaledSendRankBW := (ScaledSendRankBW d)(rank \<mapsto> getf (SendRankBW d) rank),
               ScaledSendRankBWUnit := ''B/s''\<rparr>))"

text \<open>The second \<^verbatim>\<open>if\<close>: the same for the receive bandwidth.\<close>

definition scaleRecv :: "scaler \<Rightarrow> int \<Rightarrow> CallData \<Rightarrow> abort + CallData" where
  "scaleRecv scale_Float64s rank d =
     (if \<not> f64_is_zero (getf (RecvRankBW d) rank) then
        (case scale_Float64s ''B/s'' [getf (RecvRankBW d) rank] of
           Inl err \<Rightarrow> Inl (ReturnError err)
         | Inr (unit, scaledRecvBW) \<Rightarrow>
             (case scaledRecvBW of
                [] \<Rightarrow> Inl IndexOutOfRange
              | v # _ \<Rightarrow>
                  Inr (d\<lparr>ScaledRecvRankBWUnit := unit,
                         ScaledRecvRankBW := (ScaledRecvRankBW d)(rank \<mapsto> v)\<rparr>)))
      else
        Inr (d\<lparr>ScaledRecvRankBW := (ScaledRecvRankBW d)(rank \<mapsto> getf (RecvRankBW d) rank),
               ScaledRecvRankBWUnit := ''B/s''\<rparr>))"

definition rankBody ::
  "scaler \<Rightarrow> (int \<rightharpoonup> go_int) \<Rightarrow> (int \<rightharpoonup> go_int) \<Rightarrow> (int \<rightharpoonup> float64) \<Rightarrow> int \<Rightarrow> CallData
     \<Rightarrow> abort + CallData" where
  "rankBody scale_Float64s sendCounts recvCounts execTimes rank d =
     (case scaleSend scale_Float64s rank (setRankBW sendCounts recvCounts execTimes rank d) of
        Inl a \<Rightarrow> Inl a
      | Inr d' \<Rightarrow> scaleRecv scale_Float64s rank d')"

text \<open>\<^verbatim>\<open>for rank := 0; rank < ranks; rank++\<close>, entered at \<open>rank\<close> with the data \<open>d\<close>.\<close>

function rankLoop ::
  "scaler \<Rightarrow> (int \<rightharpoonup> go_int) \<Rightarrow> (int \<rightharpoonup> go_int) \<Rightarrow> (int \<rightharpoonup> float64) \<Rightarrow> int \<Rightarrow> int \<Rightarrow> CallData
     \<Rightarrow> abort + CallData" where
  "rankLoop scale_Float64s sendCounts recvCounts execTimes ranks rank d =
     (if rank < ranks then
        (case rankBody scale_Float64s sendCounts recvCounts execTimes rank d of
           Inl a \<Rightarrow> Inl a
         | Inr d' \<Rightarrow> rankLoop scale_Float64s sendCounts recvCounts execTimes ranks (rank + 1) d')
      else Inr d)"
  by pat_completeness auto
termination
  by (relation "measure (\<lambda>(sc, s, r, t, ranks, rank, d). nat (ranks - rank))") auto

declare rankLoop.simps [simp del]

text \<open>
  The datatype sizes are parameters of the source function; its body does not mention them.
\<close>

definition GetFromCallCounts ::
  "scaler \<Rightarrow> int \<Rightarrow> (int \<rightharpoonup> go_int) \<Rightarrow> (int \<rightharpoonup> go_int) \<Rightarrow> go_int \<Rightarrow> go_int \<Rightarrow> (int \<rightharpoonup> float64)
     \<Rightarrow> CallData go_result" where
  "GetFromCallCounts scale_Float64s ranks sendCounts recvCounts sendDatatypeSize recvDatatypeSize execTimes =
     (case rankLoop scale_Float64s sendCounts recvCounts execTimes ranks 0 newCallData of
        Inl (ReturnError err) \<Rightarrow> Return None (Some err)
      | Inl IndexOutOfRange \<Rightarrow> Panic
      | Inr d \<Rightarrow> Return (Some d) None)"

subsection \<open>\<^verbatim>\<open>GetFromCallsCounts\<close>\<close>

text \<open>
  \<^verbatim>\<open>for call := 0; call < numCalls; call++\<close>, entered at \<open>call\<close> with the data \<open>d\<close>. The
  result of the per-call function is stored in the map before the error is looked at.
\<close>

function callLoop ::
  "scaler \<Rightarrow> int \<Rightarrow> (int \<rightharpoonup> (int \<rightharpoonup> go_int)) \<Rightarrow> (int \<rightharpoonup> (int \<rightharpoonup> go_int)) \<Rightarrow> go_int \<Rightarrow> go_int
     \<Rightarrow> (int \<rightharpoonup> (int \<rightharpoonup> float64)) \<Rightarrow> int \<Rightarrow> int \<Rightarrow> CallsData \<Rightarrow> CallsData go_result" where
  "callLoop scale_Float64s ranks sendCounts recvCounts sendDatatypeSize recvDatatypeSize execTimes
      numCalls call d =
     (if call < numCalls then
        (case GetFromCallCounts scale_Float64s ranks (getm sendCounts call) (getm recvCounts call)
                sendDatatypeSize recvDatatypeSize (getm execTimes call) of
           Panic \<Rightarrow> Panic
         | Return p err \<Rightarrow>
             (let d' = d\<lparr>CallData := (CallData d)(call := p)\<rparr>
              in if err \<noteq> None then Return None err
                 else callLoop scale_Float64s ranks sendCounts recvCounts sendDatatypeSize
                        recvDatatypeSize execTimes numCalls (call + 1) d'))
      else Return (Some d) None)"
  by pat_completeness auto
termination
  by (relation "measure (\<lambda>(sc, ranks, s, r, ss, rs, t, numCalls, call, d). nat (numCalls - call))") auto

declare callLoop.simps [simp del]

definition GetFromCallsCounts ::
  "scaler \<Rightarrow> int \<Rightarrow> int \<Rightarrow> (int \<rightharpoonup> (int \<rightharpoonup> go_int)) \<Rightarrow> (int \<rightharpoonup> (int \<rightharpoonup> go_int)) \<Rightarrow> go_int \<Rightarrow> go_int
     \<Rightarrow> (int \<rightharpoonup> (int \<rightharpoonup> float64)) \<Rightarrow> CallsData go_result" where
  "GetFromCallsCounts scale_Float64s numCalls ranks sendCounts recvCounts sendDatatypeSize
      recvDatatypeSize execTimes =
     callLoop scale_Float64s ranks sendCounts recvCounts sendDatatypeSize recvDatatypeSize execTimes
       numCalls 0 \<lparr>CallData = Map.empty\<rparr>"

definition GetOutputFilename :: "int \<Rightarrow> string" where
  "GetOutputFilename leadRank = ''bandwidth-percall-comm'' @ fmt_d leadRank @ ''.md''"


section \<open>The bandwidth command\<close>

text \<open>
  The body of the loop over the communicators of \<^verbatim>\<open>main\<close>, for one lead rank and one
  communicator. The parsers it calls (packages \<^verbatim>\<open>counts\<close>, \<^verbatim>\<open>profiler\<close>,
  \<^verbatim>\<open>timings\<close>) are not part of the sources at hand; what they return is an input here.
\<close>

subsection \<open>Data handed over by the parsers\<close>

text \<open>The type of \<^verbatim>\<open>commCounts[i].Counts\<close>, with the three fields the command reads.\<close>

record counts_header =
  CommSize :: go_int
  SendDatatypeSize :: go_int
  RecvDatatypeSize :: go_int

record counts_RawCounts =
  Counts :: counts_header

text \<open>
  The type of \<^verbatim>\<open>callData.SendData\<close>: its field \<^verbatim>\<open>Counts\<close> (here \<open>CallCounts\<close>) maps a
  call to the map from ranks to the list of counts. The command ranges over the inner map, which
  is kept as the list of its entries in the order the iteration visits them.
\<close>

record counts_Data =
  CallCounts :: "int \<rightharpoonup> (int \<times> go_int list) list"

record counts_CallData =
  counts_SendData :: counts_Data
  counts_RecvData :: counts_Data

text \<open>
  The output file: what has been written, and how many more writes the device accepts.
\<close>

record os_File =
  content :: string
  budget :: nat

definition WriteString :: "os_File \<Rightarrow> string \<Rightarrow> error + os_File" where
  "WriteString f s =
     (if budget f = 0 then Inl ''write failed''
      else Inr \<lparr>content = content f @ s, budget = budget f - 1\<rparr>)"

text \<open>
  The results of the calls to the parsers and to \<^verbatim>\<open>os.Create\<close>. The map \<^verbatim>\<open>callsData\<close> is
  ranged over, so it is the list of its entries in iteration order. A successful
  \<^verbatim>\<open>os.Create\<close> gives an empty file; its result here is the number of writes the file
  will accept.
\<close>

record externals =
  GetJobIdFromLeadRank :: "error + int"
  LoadCommunicatorRawCompactFormatCounts :: "error + counts_RawCounts list"
  AnalyzeJobRankCounts :: "error + (int \<times> counts_CallData) list"
  GetJobIdFromDataFiles :: "error + int"
  ParseTimingFile :: "error + (int \<rightharpoonup> (int \<rightharpoonup> float64))"
  Create :: "error + nat"

text \<open>
  What one pass through the loop body leaves behind: the process has exited, has panicked, or
  goes on to the next communicator; the text printed on standard output; the output file, once
  created.
\<close>

datatype status = Exit int | Panicked | Completed

record run =
  status :: status
  stdout :: string
  report :: "os_File option"

definition tab :: char where
  "tab = CHR 0x09"

definition nl :: char where
  "nl = CHR 0x0A"

subsection \<open>Reduction of the raw counts\<close>

text \<open>\<^verbatim>\<open>for _, c := range counts { data[callId][rank] += c }\<close> on the inner map.\<close>

fun addCounts :: "(int \<rightharpoonup> go_int) \<Rightarrow> int \<Rightarrow> go_int list \<Rightarrow> (int \<rightharpoonup> go_int)" where
  "addCounts m rank [] = m"
| "addCounts m rank (c # cs) = addCounts (m(rank \<mapsto> geti m rank + c)) rank cs"

text \<open>\<^verbatim>\<open>for rank, counts := range ranksData\<close>.\<close>

fun addRanks :: "(int \<rightharpoonup> go_int) \<Rightarrow> (int \<times> go_int list) list \<Rightarrow> (int \<rightharpoonup> go_int)" where
  "addRanks m [] = m"
| "addRanks m ((rank, counts) # ranksData) = addRanks (addCounts m rank counts) ranksData"

text \<open>\<^verbatim>\<open>ranksData := callData.SendData.Counts[callId]\<close>; an absent call gives a nil map.\<close>

definition ranksOf :: "counts_Data \<Rightarrow> int \<Rightarrow> (int \<times> go_int list) list" where
  "ranksOf cd callId = (case CallCounts cd callId of None \<Rightarrow> [] | Some ranksData \<Rightarrow> ranksData)"

text \<open>The first loop over \<^verbatim>\<open>callsData\<close>: it fills \<^verbatim>\<open>sendData\<close> and \<^verbatim>\<open>allCalls\<close>.\<close>

fun sendLoop ::
  "(int \<rightharpoonup> (int \<rightharpoonup> go_int)) \<times> int list \<Rightarrow> (int \<times> counts_CallData) list
     \<Rightarrow> (int \<rightharpoonup> (int \<rightharpoonup> go_int)) \<times> int list" where
  "sendLoop (sendData, allCalls) [] = (sendData, allCalls)"
| "sendLoop (sendData, allCalls) ((callId, callData) # callsData) =
     sendLoop
       (sendData(callId \<mapsto> addRanks Map.empty (ranksOf (counts_SendData callData) callId)),
        allCalls @ [callId])
       callsData"

text \<open>The second loop over \<^verbatim>\<open>callsData\<close>: it fills \<^verbatim>\<open>recvData\<close>.\<close>

fun recvLoop ::
  "(int \<rightharpoonup> (int \<rightharpoonup> go_int)) \<Rightarrow> (int \<times> counts_CallData) list \<Rightarrow> (int \<rightharpoonup> (int \<rightharpoonup> go_int))" where
  "recvLoop recvData [] = recvData"
| "recvLoop recvData ((callId, callData) # callsData) =
     recvLoop
       (recvData(callId \<mapsto> addRanks Map.empty (ranksOf (counts_RecvData callData) callId)))
       callsData"

subsection \<open>Writing the report\<close>

datatype write_abort = WriteFailed error | NilDereference

text \<open>
  \<^verbatim>\<open>for rank := 0; rank < numRanks; rank++\<close> of the report: one line per rank. The pointer
  \<open>d\<close> read from \<^verbatim>\<open>bwData.CallData\<close> is nil for an absent call; it is dereferenced in the body.
  When the loop is left early, the file is returned as it stands.
\<close>

function writeRanks ::
  "CallData option \<Rightarrow> int \<Rightarrow> int \<Rightarrow> os_File \<Rightarrow> write_abort \<times> os_File + os_File" where
  "writeRanks d numRanks rank f =
     (if rank < numRanks then
        (case d of
           None \<Rightarrow> Inl (NilDereference, f)
         | Some cd \<Rightarrow>
             (case WriteString f
                     (fmt_2f (getf (SendRankBW cd) rank) @ [tab]
                      @ fmt_2f (getf (RecvRankBW cd) rank) @ [nl]) of
                Inl err \<Rightarrow> Inl (WriteFailed err, f)
              | Inr f' \<Rightarrow> writeRanks d numRanks (rank + 1) f'))
      else Inr f)"
  by pat_completeness auto
termination
  by (relation "measure (\<lambda>(d, numRanks, rank, f). nat (numRanks - rank))") auto

declare writeRanks.simps [simp del]

text \<open>
  \<^verbatim>\<open>for _, callId := range allCalls\<close>: the block of each call. The pointer \<open>bwData\<close> is
  dereferenced after the header has been written.
\<close>

fun writeCalls ::
  "CallsData option \<Rightarrow> int \<Rightarrow> int list \<Rightarrow> os_File \<Rightarrow> write_abort \<times> os_File + os_File" where
  "writeCalls bwData numRanks [] f = Inr f"
| "writeCalls bwData numRanks (callId # allCalls) f =
     (case WriteString f
             (''# Call '' @ fmt_d callId @ [nl]
              @ ''send BW (B/s)'' @ [tab] @ ''receive BW (B/s)'' @ [nl]) of
        Inl err \<Rightarrow> Inl (WriteFailed err, f)
      | Inr f1 \<Rightarrow>
          (case bwData of
             None \<Rightarrow> Inl (NilDereference, f1)
           | Some calls \<Rightarrow>
               (case writeRanks (CallData calls callId) numRanks 0 f1 of
                  Inl a \<Rightarrow> Inl a
                | Inr f2 \<Rightarrow>
                    (case WriteString f2 [nl] of
                       Inl err \<Rightarrow> Inl (WriteFailed err, f2)
                     | Inr f3 \<Rightarrow> writeCalls bwData numRanks allCalls f3))))"

subsection \<open>One communicator\<close>

definition filepath_Join :: "string \<Rightarrow> string \<Rightarrow> string" where
  "filepath_Join dir name = dir @ ''/'' @ name"

definition exit1 :: "string \<Rightarrow> os_File option \<Rightarrow> run" where
  "exit1 msg f = \<lparr>status = Exit 1, stdout = msg, report = f\<rparr>"

definition panic :: "os_File option \<Rightarrow> run" where
  "panic f = \<lparr>status = Panicked, stdout = [], report = f\<rparr>"

text \<open>From the creation of the output file to the end of the loop body.\<close>

definition main_save ::
  "string \<Rightarrow> error + nat \<Rightarrow> CallsData option \<Rightarrow> int \<Rightarrow> int list \<Rightarrow> run" where
  "main_save outputFilePath created bwData numRanks allCalls =
     (case created of
        Inl err \<Rightarrow>
          exit1 (''ERROR: unable to create output file '' @ outputFilePath @ '': '' @ err @ [nl]) None
      | Inr writes \<Rightarrow>
          (case writeCalls bwData numRanks allCalls \<lparr>content = [], budget = writes\<rparr> of
             Inl (WriteFailed err, f) \<Rightarrow>
               exit1 (''ERROR: unable to write output to '' @ outputFilePath @ '': '' @ err @ [nl])
                 (Some f)
           | Inl (NilDereference, f) \<Rightarrow> panic (Some f)
           | Inr f \<Rightarrow>
               \<lparr>status = Completed,
                stdout = ''Data successfully saved in '' @ outputFilePath @ [nl],
                report = Some f\<rparr>))"

text \<open>From the computation of the number of ranks to the call of \<^verbatim>\<open>GetFromCallsCounts\<close>.\<close>

definition main_calculate ::
  "scaler \<Rightarrow> string \<Rightarrow> error + nat \<Rightarrow> counts_RawCounts list \<Rightarrow> int
     \<Rightarrow> (int \<rightharpoonup> (int \<rightharpoonup> go_int)) \<Rightarrow> (int \<rightharpoonup> (int \<rightharpoonup> go_int)) \<Rightarrow> int list
     \<Rightarrow> (int \<rightharpoonup> (int \<rightharpoonup> float64)) \<Rightarrow> run" where
  "main_calculate scale_Float64s outputFilePath created commCounts numCalls sendData recvData allCalls
      execTimesCallsData =
     (case commCounts of
        [] \<Rightarrow> panic None
      | first # _ \<Rightarrow>
          (let numRanks = CommSize (Counts first) in
           if numRanks = 0 then
             exit1 (''ERROR: invalid number of ranks: '' @ fmt_d (sint numRanks) @ [nl]) None
           else
             (let sendDatatypeSize = SendDatatypeSize (Counts first) in
              if sendDatatypeSize = 0 then
                exit1 (''ERROR: invalid send datatype size: '' @ fmt_d (sint sendDatatypeSize) @ [nl])
                  None
              else
                (let recvDatatypeSize = RecvDatatypeSize (Counts first) in
                 if recvDatatypeSize = 0 then
                   exit1
                     (''ERROR: invalid recv datatype size: '' @ fmt_d (sint recvDatatypeSize) @ [nl])
                     None
                 else
                   (case GetFromCallsCounts scale_Float64s numCalls (sint numRanks) sendData recvData
                           sendDatatypeSize recvDatatypeSize execTimesCallsData of
                      Panic \<Rightarrow> panic None
                    | Return bwData (Some err) \<Rightarrow>
                        exit1 (''ERROR: bandwidth.GetFromCallsCounts() failed: '' @ err @ [nl]) None
                    | Return bwData None \<Rightarrow>
                        main_save outputFilePath created bwData (sint numRanks) allCalls)))))"

text \<open>The whole loop body, for the lead rank \<open>leadRank\<close>.\<close>

definition main_body :: "scaler \<Rightarrow> string \<Rightarrow> int \<Rightarrow> externals \<Rightarrow> run" where
  "main_body scale_Float64s outputDir leadRank ext =
     (case GetJobIdFromLeadRank ext of
        Inl err \<Rightarrow> exit1 (''ERROR: counts.GetJobIdFromLeadRank() failed: '' @ err @ [nl]) None
      | Inr jobId \<Rightarrow>
     (case LoadCommunicatorRawCompactFormatCounts ext of
        Inl err \<Rightarrow>
          exit1 (''ERROR: counts.LoadCommunicatorRawCompactFormatCounts() failed: '' @ err @ [nl])
            None
      | Inr commCounts \<Rightarrow>
     (case AnalyzeJobRankCounts ext of
        Inl err \<Rightarrow> exit1 (''ERROR: analyzeJobRankCounts() failed: '' @ err @ [nl]) None
      | Inr callsData \<Rightarrow>
     (let (sendData, allCalls) = sendLoop (Map.empty, []) callsData;
          recvData = recvLoop Map.empty callsData;
          allCalls = sort allCalls
      in
     (case GetJobIdFromDataFiles ext of
        Inl err \<Rightarrow> exit1 (''ERROR: timings.GetJobIdFromDataFiles() failed: '' @ err @ [nl]) None
      | Inr jobIdTimeFile \<Rightarrow>
     (case ParseTimingFile ext of
        Inl err \<Rightarrow> exit1 (''ERROR: timings.ParseTimingFile() failed: '' @ err) None
      | Inr execTimesCallsData \<Rightarrow>
          main_calculate scale_Float64s
            (filepath_Join outputDir (GetOutputFilename leadRank)) (Create ext)
            commCounts (int (length callsData)) sendData recvData allCalls
            execTimesCallsData))))))"

section \<open>The Unit Scaler of the specification\<close>

text \<open>
  Modelled from the spec: package \<^verbatim>\<open>internal/pkg/scale\<close> (function \<^verbatim>\<open>Float64s\<close>) is not
  part of the sources at hand. The specification describes a Unit Scaler that fails on an
  unrecognised base unit and on an empty sequence of values, returns a zero magnitude unchanged
  with the base unit, and otherwise selects the largest prefix among K, M, G, T, with a fixed
  multiplier, that brings the first value into the readable range, applying the same factor to
  every value. The multiplier is taken to be 1000 and the only recognised base unit \<^verbatim>\<open>B/s\<close>.
\<close>

definition f64_1000 :: float64 where
  "f64_1000 = f64_of_int 1000"

fun scaleUp :: "string list \<Rightarrow> string \<Rightarrow> float64 list \<Rightarrow> string \<times> float64 list" where
  "scaleUp [] unit vs = (unit, vs)"
| "scaleUp (u # us) unit vs =
     (if f64_abs_le f64_1000 (hd vs) then scaleUp us u (map (\<lambda>v. f64_div v f64_1000) vs)
      else (unit, vs))"

definition spec_scale :: scaler where
  "spec_scale baseUnit vs =
     (if baseUnit \<noteq> ''B/s'' then Inl ''invalid unit''
      else if vs = [] then Inl ''no value to scale''
      else if f64_is_zero (hd vs) then Inr (baseUnit, vs)
      else Inr (scaleUp [''KB/s'', ''MB/s'', ''GB/s'', ''TB/s''] baseUnit vs))"

section \<open>The report format of the specification\<close>

text \<open>
  The block of one call as the specification words it: a header line naming the call, the
  line of column headers, one line per rank with the send and the receive bandwidth printed
  with two decimals and separated by a tab, and one blank line.
\<close>

definition spec_line :: "float64 \<times> float64 \<Rightarrow> string" where
  "spec_line row = fmt_2f (fst row) @ [tab] @ fmt_2f (snd row) @ [nl]"

definition spec_block :: "int \<Rightarrow> (float64 \<times> float64) list \<Rightarrow> string" where
  "spec_block callId rows =
     ''# Call '' @ fmt_d callId @ [nl]
     @ ''send BW (B/s)'' @ [tab] @ ''receive BW (B/s)'' @ [nl]
     @ concat (map spec_line rows)
     @ [nl]"

section \<open>An example dataset\<close>

text \<open>
  One communicator of two ranks with a single call, numbered 0: rank 0 sends 100 elements and
  receives 50, rank 1 sends and receives nothing, and each rank takes one second. The output
  file accepts ten writes.
\<close>

definition example_externals :: externals where
  "example_externals =
     \<lparr>GetJobIdFromLeadRank = Inr 0,
      LoadCommunicatorRawCompactFormatCounts =
        Inr [\<lparr>Counts = \<lparr>CommSize = 2, SendDatatypeSize = 4, RecvDatatypeSize = 4\<rparr>\<rparr>],
      AnalyzeJobRankCounts =
        Inr [(0, \<lparr>counts_SendData = \<lparr>CallCounts = [0 \<mapsto> [(0, [100]), (1, [0])]]\<rparr>,
                  counts_RecvData = \<lparr>CallCounts = [0 \<mapsto> [(0, [20, 30]), (1, [])]]\<rparr>\<rparr>)],
      GetJobIdFromDataFiles = Inr 0,
      ParseTimingFile = Inr [0 \<mapsto> [0 \<mapsto> f64_of_int 1, 1 \<mapsto> f64_of_int 1]],
      Create = Inr 10\<rparr>"

section \<open>Notation\<close>

text \<open>The bandwidth of one rank, as the loop body computes it from the two map reads.\<close>

abbreviation bw :: "(int \<rightharpoonup> go_int) \<Rightarrow> (int \<rightharpoonup> float64) \<Rightarrow> int \<Rightarrow> float64" where
  "bw counts execTimes rank \<equiv> f64_div (float64 (geti counts rank)) (getf execTimes rank)"

text \<open>The per-call computation as the loop of \<^verbatim>\<open>GetFromCallsCounts\<close> invokes it.\<close>

abbreviation perCall ::
  "scaler \<Rightarrow> int \<Rightarrow> (int \<rightharpoonup> (int \<rightharpoonup> go_int)) \<Rightarrow> (int \<rightharpoonup> (int \<rightharpoonup> go_int)) \<Rightarrow> go_int \<Rightarrow> go_int
     \<Rightarrow> (int \<rightharpoonup> (int \<rightharpoonup> float64)) \<Rightarrow> int \<Rightarrow> CallData go_result" where
  "perCall sc ranks s r ss rs t c \<equiv>
     GetFromCallCounts sc ranks (getm s c) (getm r c) ss rs (getm t c)"


section \<open>The loop over the ranks\<close>

subsection \<open>One iteration\<close>


lemma setRankBW_fields [simp]:
  "SendData (setRankBW s r t rank d) = SendData d"
  "RecvData (setRankBW s r t rank d) = RecvData d"
  "SendRankBW (setRankBW s r t rank d) =
     (SendRankBW d)(rank \<mapsto> f64_div (float64 (geti s rank)) (getf t rank))"
  "RecvRankBW (setRankBW s r t rank d) =
     (RecvRankBW d)(rank \<mapsto> f64_div (float64 (geti r rank)) (getf t rank))"
  "ScaledSendRankBW (setRankBW s r t rank d) = ScaledSendRankBW d"
  "ScaledRecvRankBW (setRankBW s r t rank d) = ScaledRecvRankBW d"
  "ScaledSendRankBWUnit (setRankBW s r t rank d) = ScaledSendRankBWUnit d"
  "ScaledRecvRankBWUnit (setRankBW s r t rank d) = ScaledRecvRankBWUnit d"
  by (simp_all add: setRankBW_def Let_def)

lemma getf_upd [simp]: "getf (m(k \<mapsto> v)) k = v"
  by (simp add: getf_def)

lemma scaleSend_Inr:
  assumes "scaleSend sc rank d = Inr d'"
  shows "SendData d' = SendData d" "RecvData d' = RecvData d"
    "SendRankBW d' = SendRankBW d" "RecvRankBW d' = RecvRankBW d"
    "ScaledRecvRankBW d' = ScaledRecvRankBW d"
    "ScaledRecvRankBWUnit d' = ScaledRecvRankBWUnit d"
    "\<exists>v. ScaledSendRankBW d' = (ScaledSendRankBW d)(rank \<mapsto> v)"
    "f64_is_zero (getf (SendRankBW d) rank) \<Longrightarrow>
       ScaledSendRankBW d' = (ScaledSendRankBW d)(rank \<mapsto> getf (SendRankBW d) rank)
       \<and> ScaledSendRankBWUnit d' = ''B/s''"
    "\<not> f64_is_zero (getf (SendRankBW d) rank) \<Longrightarrow>
       \<exists>v vs. sc ''B/s'' [getf (SendRankBW d) rank] = Inr (ScaledSendRankBWUnit d', v # vs)
         \<and> ScaledSendRankBW d' = (ScaledSendRankBW d)(rank \<mapsto> v)"
  using assms
  by (auto simp: scaleSend_def split: if_splits sum.splits prod.splits list.splits)

lemma scaleRecv_Inr:
  assumes "scaleRecv sc rank d = Inr d'"
  shows "SendData d' = SendData d" "RecvData d' = RecvData d"
    "SendRankBW d' = SendRankBW d" "RecvRankBW d' = RecvRankBW d"
    "ScaledSendRankBW d' = ScaledSendRankBW d"
    "ScaledSendRankBWUnit d' = ScaledSendRankBWUnit d"
    "\<exists>v. ScaledRecvRankBW d' = (ScaledRecvRankBW d)(rank \<mapsto> v)"
    "f64_is_zero (getf (RecvRankBW d) rank) \<Longrightarrow>
       ScaledRecvRankBW d' = (ScaledRecvRankBW d)(rank \<mapsto> getf (RecvRankBW d) rank)
       \<and> ScaledRecvRankBWUnit d' = ''B/s''"
    "\<not> f64_is_zero (getf (RecvRankBW d) rank) \<Longrightarrow>
       \<exists>v vs. sc ''B/s'' [getf (RecvRankBW d) rank] = Inr (ScaledRecvRankBWUnit d', v # vs)
         \<and> ScaledRecvRankBW d' = (ScaledRecvRankBW d)(rank \<mapsto> v)"
  using assms
  by (auto simp: scaleRecv_def split: if_splits sum.splits prod.splits list.splits)


lemma rankBody_Inr:
  assumes "rankBody sc s r t rank d = Inr d'"
  shows "SendData d' = SendData d" "RecvData d' = RecvData d"
    "SendRankBW d' = (SendRankBW d)(rank \<mapsto> bw s t rank)"
    "RecvRankBW d' = (RecvRankBW d)(rank \<mapsto> bw r t rank)"
    "\<exists>v. ScaledSendRankBW d' = (ScaledSendRankBW d)(rank \<mapsto> v)"
    "\<exists>v. ScaledRecvRankBW d' = (ScaledRecvRankBW d)(rank \<mapsto> v)"
    "f64_is_zero (bw s t rank) \<Longrightarrow>
       ScaledSendRankBW d' = (ScaledSendRankBW d)(rank \<mapsto> bw s t rank)
       \<and> ScaledSendRankBWUnit d' = ''B/s''"
    "f64_is_zero (bw r t rank) \<Longrightarrow>
       ScaledRecvRankBW d' = (ScaledRecvRankBW d)(rank \<mapsto> bw r t rank)
       \<and> ScaledRecvRankBWUnit d' = ''B/s''"
    "\<not> f64_is_zero (bw s t rank) \<Longrightarrow>
       \<exists>v vs. sc ''B/s'' [bw s t rank] = Inr (ScaledSendRankBWUnit d', v # vs)
         \<and> ScaledSendRankBW d' = (ScaledSendRankBW d)(rank \<mapsto> v)"
    "\<not> f64_is_zero (bw r t rank) \<Longrightarrow>
       \<exists>v vs. sc ''B/s'' [bw r t rank] = Inr (ScaledRecvRankBWUnit d', v # vs)
         \<and> ScaledRecvRankBW d' = (ScaledRecvRankBW d)(rank \<mapsto> v)"
proof -
  from assms obtain d1 where
    s1: "scaleSend sc rank (setRankBW s r t rank d) = Inr d1" and
    s2: "scaleRecv sc rank d1 = Inr d'"
    by (auto simp: rankBody_def split: sum.splits)
  note a = scaleSend_Inr [OF s1] and b = scaleRecv_Inr [OF s2]
  show "SendData d' = SendData d" using a(1) b(1) by simp
  show "RecvData d' = RecvData d" using a(2) b(2) by simp
  show "SendRankBW d' = (SendRankBW d)(rank \<mapsto> bw s t rank)" using a(3) b(3) by simp
  show "RecvRankBW d' = (RecvRankBW d)(rank \<mapsto> bw r t rank)" using a(4) b(4) by simp
  show "\<exists>v. ScaledSendRankBW d' = (ScaledSendRankBW d)(rank \<mapsto> v)" using a(7) b(5) by simp
  show "\<exists>v. ScaledRecvRankBW d' = (ScaledRecvRankBW d)(rank \<mapsto> v)" using a(5) b(7) by simp
  show "ScaledSendRankBW d' = (ScaledSendRankBW d)(rank \<mapsto> bw s t rank)
       \<and> ScaledSendRankBWUnit d' = ''B/s''" if "f64_is_zero (bw s t rank)"
    using a(8) b(5,6) that by simp
  show "ScaledRecvRankBW d' = (ScaledRecvRankBW d)(rank \<mapsto> bw r t rank)
       \<and> ScaledRecvRankBWUnit d' = ''B/s''" if "f64_is_zero (bw r t rank)"
    using b(8) a(4,5) that by simp
  show "\<exists>v vs. sc ''B/s'' [bw s t rank] = Inr (ScaledSendRankBWUnit d', v # vs)
         \<and> ScaledSendRankBW d' = (ScaledSendRankBW d)(rank \<mapsto> v)"
    if "\<not> f64_is_zero (bw s t rank)"
    using a(9) b(5,6) that by simp
  show "\<exists>v vs. sc ''B/s'' [bw r t rank] = Inr (ScaledRecvRankBWUnit d', v # vs)
         \<and> ScaledRecvRankBW d' = (ScaledRecvRankBW d)(rank \<mapsto> v)"
    if "\<not> f64_is_zero (bw r t rank)"
    using b(9) a(4,5) that by simp
qed

text \<open>What the loop has done to the data when it returns normally.\<close>

lemma rankLoop_Inr:
  "rankLoop sc s r t ranks rank d = Inr d' \<Longrightarrow>
     SendData d' = SendData d \<and> RecvData d' = RecvData d
     \<and> (\<forall>k. SendRankBW d' k = (if rank \<le> k \<and> k < ranks then Some (bw s t k) else SendRankBW d k))
     \<and> (\<forall>k. RecvRankBW d' k = (if rank \<le> k \<and> k < ranks then Some (bw r t k) else RecvRankBW d k))
     \<and> (\<forall>k. if rank \<le> k \<and> k < ranks then ScaledSendRankBW d' k \<noteq> None
              else ScaledSendRankBW d' k = ScaledSendRankBW d k)
     \<and> (\<forall>k. if rank \<le> k \<and> k < ranks then ScaledRecvRankBW d' k \<noteq> None
              else ScaledRecvRankBW d' k = ScaledRecvRankBW d k)"
proof (induction sc s r t ranks rank d rule: rankLoop.induct)
  case (1 sc s r t ranks rank d)
  show ?case
  proof (cases "rank < ranks")
    case False
    with "1.prems" show ?thesis by (auto simp: rankLoop.simps)
  next
    case True
    with "1.prems" obtain d1 where
      b: "rankBody sc s r t rank d = Inr d1" and
      l: "rankLoop sc s r t ranks (rank + 1) d1 = Inr d'"
      by (auto simp: rankLoop.simps [of sc s r t ranks rank] split: sum.splits)
    note ih = "1.IH" [OF True b l]
    note bd = rankBody_Inr [OF b]
    from bd(5) obtain v where v: "ScaledSendRankBW d1 = (ScaledSendRankBW d)(rank \<mapsto> v)" ..
    from bd(6) obtain w where w: "ScaledRecvRankBW d1 = (ScaledRecvRankBW d)(rank \<mapsto> w)" ..
    have "SendData d' = SendData d" "RecvData d' = RecvData d"
      using ih bd(1,2) by simp_all
    moreover have "SendRankBW d' k = (if rank \<le> k \<and> k < ranks then Some (bw s t k) else SendRankBW d k)" for k
      using ih bd(3) True by (cases "k = rank") auto
    moreover have "RecvRankBW d' k = (if rank \<le> k \<and> k < ranks then Some (bw r t k) else RecvRankBW d k)" for k
      using ih bd(4) True by (cases "k = rank") auto
    moreover have "if rank \<le> k \<and> k < ranks then ScaledSendRankBW d' k \<noteq> None
              else ScaledSendRankBW d' k = ScaledSendRankBW d k" for k
    proof -
      from ih have "if rank + 1 \<le> k \<and> k < ranks then ScaledSendRankBW d' k \<noteq> None
              else ScaledSendRankBW d' k = ScaledSendRankBW d1 k" by blast
      then show ?thesis using v True by (cases "k = rank") (auto split: if_splits)
    qed
    moreover have "if rank \<le> k \<and> k < ranks then ScaledRecvRankBW d' k \<noteq> None
              else ScaledRecvRankBW d' k = ScaledRecvRankBW d k" for k
    proof -
      from ih have "if rank + 1 \<le> k \<and> k < ranks then ScaledRecvRankBW d' k \<noteq> None
              else ScaledRecvRankBW d' k = ScaledRecvRankBW d1 k" by blast
      then show ?thesis using w True by (cases "k = rank") (auto split: if_splits)
    qed
    ultimately show ?thesis by blast
  qed
qed


text \<open>The scaled entry of every rank the loop has gone through.\<close>

lemma rankLoop_scaled:
  "rankLoop sc s r t ranks rank d = Inr d' \<Longrightarrow> rank \<le> k \<Longrightarrow> k < ranks \<Longrightarrow>
     (if f64_is_zero (bw s t k) then ScaledSendRankBW d' k = Some (bw s t k)
      else \<exists>u v vs. sc ''B/s'' [bw s t k] = Inr (u, v # vs) \<and> ScaledSendRankBW d' k = Some v)
     \<and> (if f64_is_zero (bw r t k) then ScaledRecvRankBW d' k = Some (bw r t k)
        else \<exists>u v vs. sc ''B/s'' [bw r t k] = Inr (u, v # vs) \<and> ScaledRecvRankBW d' k = Some v)"
proof (induction sc s r t ranks rank d rule: rankLoop.induct)
  case (1 sc s r t ranks rank d)
  from "1.prems" have lt: "rank < ranks" by simp
  with "1.prems" obtain d1 where
    b: "rankBody sc s r t rank d = Inr d1" and
    l: "rankLoop sc s r t ranks (rank + 1) d1 = Inr d'"
    by (auto simp: rankLoop.simps [of sc s r t ranks rank] split: sum.splits)
  show ?case
  proof (cases "k = rank")
    case False
    with "1.prems" have "rank + 1 \<le> k" by simp
    from "1.IH" [OF lt b l this "1.prems"(3)] show ?thesis .
  next
    case True
    note bd = rankBody_Inr [OF b]
    from rankLoop_Inr [OF l] True
    have keep: "ScaledSendRankBW d' k = ScaledSendRankBW d1 k"
      "ScaledRecvRankBW d' k = ScaledRecvRankBW d1 k"
      by (auto split: if_splits)
    have "if f64_is_zero (bw s t k) then ScaledSendRankBW d' k = Some (bw s t k)
      else \<exists>u v vs. sc ''B/s'' [bw s t k] = Inr (u, v # vs) \<and> ScaledSendRankBW d' k = Some v"
      using bd(7,9) keep(1) True by (cases "f64_is_zero (bw s t k)") auto
    moreover have "if f64_is_zero (bw r t k) then ScaledRecvRankBW d' k = Some (bw r t k)
        else \<exists>u v vs. sc ''B/s'' [bw r t k] = Inr (u, v # vs) \<and> ScaledRecvRankBW d' k = Some v"
      using bd(8,10) keep(2) True by (cases "f64_is_zero (bw r t k)") auto
    ultimately show ?thesis by simp
  qed
qed

text \<open>The two unit strings are those of the last rank.\<close>

lemma rankLoop_unit:
  "rankLoop sc s r t ranks rank d = Inr d' \<Longrightarrow> rank < ranks \<Longrightarrow>
     (if f64_is_zero (bw s t (ranks - 1)) then ScaledSendRankBWUnit d' = ''B/s''
      else \<exists>v vs. sc ''B/s'' [bw s t (ranks - 1)] = Inr (ScaledSendRankBWUnit d', v # vs))
     \<and> (if f64_is_zero (bw r t (ranks - 1)) then ScaledRecvRankBWUnit d' = ''B/s''
        else \<exists>v vs. sc ''B/s'' [bw r t (ranks - 1)] = Inr (ScaledRecvRankBWUnit d', v # vs))"
proof (induction sc s r t ranks rank d rule: rankLoop.induct)
  case (1 sc s r t ranks rank d)
  from "1.prems" obtain d1 where
    b: "rankBody sc s r t rank d = Inr d1" and
    l: "rankLoop sc s r t ranks (rank + 1) d1 = Inr d'"
    by (auto simp: rankLoop.simps [of sc s r t ranks rank] split: sum.splits)
  show ?case
  proof (cases "rank + 1 < ranks")
    case True
    from "1.IH" [OF "1.prems"(2) b l True] show ?thesis .
  next
    case False
    with "1.prems" have last: "rank = ranks - 1" by simp
    from l False have eq: "d' = d1" by (simp add: rankLoop.simps)
    note bd = rankBody_Inr [OF b]
    have "if f64_is_zero (bw s t (ranks - 1)) then ScaledSendRankBWUnit d' = ''B/s''
      else \<exists>v vs. sc ''B/s'' [bw s t (ranks - 1)] = Inr (ScaledSendRankBWUnit d', v # vs)"
      using bd(7,9) eq last by (cases "f64_is_zero (bw s t rank)") auto
    moreover have "if f64_is_zero (bw r t (ranks - 1)) then ScaledRecvRankBWUnit d' = ''B/s''
        else \<exists>v vs. sc ''B/s'' [bw r t (ranks - 1)] = Inr (ScaledRecvRankBWUnit d', v # vs)"
      using bd(8,10) eq last by (cases "f64_is_zero (bw r t rank)") auto
    ultimately show ?thesis by simp
  qed
qed

text \<open>The loop returns normally when the scaler answers every query with a value.\<close>

lemma scaleSend_total:
  assumes "\<forall>v. \<not> f64_is_zero v \<longrightarrow> (\<exists>u y ys. sc ''B/s'' [v] = Inr (u, y # ys))"
  shows "\<exists>d'. scaleSend sc rank d = Inr d'"
proof (cases "f64_is_zero (getf (SendRankBW d) rank)")
  case True
  then show ?thesis by (simp add: scaleSend_def)
next
  case False
  with assms obtain u y ys where "sc ''B/s'' [getf (SendRankBW d) rank] = Inr (u, y # ys)"
    by blast
  with False show ?thesis by (simp add: scaleSend_def)
qed

lemma scaleRecv_total:
  assumes "\<forall>v. \<not> f64_is_zero v \<longrightarrow> (\<exists>u y ys. sc ''B/s'' [v] = Inr (u, y # ys))"
  shows "\<exists>d'. scaleRecv sc rank d = Inr d'"
proof (cases "f64_is_zero (getf (RecvRankBW d) rank)")
  case True
  then show ?thesis by (simp add: scaleRecv_def)
next
  case False
  with assms obtain u y ys where "sc ''B/s'' [getf (RecvRankBW d) rank] = Inr (u, y # ys)"
    by blast
  with False show ?thesis by (simp add: scaleRecv_def)
qed

lemma rankBody_total:
  assumes "\<forall>v. \<not> f64_is_zero v \<longrightarrow> (\<exists>u y ys. sc ''B/s'' [v] = Inr (u, y # ys))"
  shows "\<exists>d'. rankBody sc s r t rank d = Inr d'"
proof -
  from scaleSend_total [where sc = sc, OF assms] obtain d1 where
    "scaleSend sc rank (setRankBW s r t rank d) = Inr d1" by blast
  moreover from scaleRecv_total [where sc = sc, OF assms] obtain d2 where "scaleRecv sc rank d1 = Inr d2"
    by blast
  ultimately show ?thesis by (simp add: rankBody_def)
qed

lemma rankLoop_total:
  assumes "\<forall>v. \<not> f64_is_zero v \<longrightarrow> (\<exists>u y ys. sc ''B/s'' [v] = Inr (u, y # ys))"
  shows "\<exists>d'. rankLoop sc s r t ranks rank d = Inr d'"
  using assms
proof (induction sc s r t ranks rank d rule: rankLoop.induct)
  case (1 sc s r t ranks rank d)
  show ?case
  proof (cases "rank < ranks")
    case False
    then show ?thesis by (simp add: rankLoop.simps)
  next
    case True
    from rankBody_total [where sc = sc, OF "1.prems"] obtain d1 where b: "rankBody sc s r t rank d = Inr d1"
      by blast
    from "1.IH" [OF True b "1.prems"] obtain d' where
      "rankLoop sc s r t ranks (rank + 1) d1 = Inr d'" by blast
    with True b show ?thesis by (simp add: rankLoop.simps [of sc s r t ranks rank])
  qed
qed

text \<open>
  The loop reads its arguments only at the ranks it goes through, and the scaler only at
  non-zero values.
\<close>

lemma scaleSend_cong:
  assumes "\<forall>v. \<not> f64_is_zero v \<longrightarrow> sc ''B/s'' [v] = sc' ''B/s'' [v]"
  shows "scaleSend sc rank d = scaleSend sc' rank d"
  using assms by (simp add: scaleSend_def)

lemma scaleRecv_cong:
  assumes "\<forall>v. \<not> f64_is_zero v \<longrightarrow> sc ''B/s'' [v] = sc' ''B/s'' [v]"
  shows "scaleRecv sc rank d = scaleRecv sc' rank d"
  using assms by (simp add: scaleRecv_def)

lemma rankBody_cong:
  assumes "\<forall>v. \<not> f64_is_zero v \<longrightarrow> sc ''B/s'' [v] = sc' ''B/s'' [v]"
    and "geti s rank = geti s' rank" and "geti r rank = geti r' rank"
    and "getf t rank = getf t' rank"
  shows "rankBody sc s r t rank d = rankBody sc' s' r' t' rank d"
proof -
  have "setRankBW s r t rank d = setRankBW s' r' t' rank d"
    using assms(2-4) by (simp add: setRankBW_def)
  then show ?thesis
    using scaleSend_cong [where sc = sc and sc' = sc', OF assms(1)]
      scaleRecv_cong [where sc = sc and sc' = sc', OF assms(1)]
    by (simp add: rankBody_def split: sum.splits)
qed

lemma rankLoop_cong:
  assumes "\<forall>v. \<not> f64_is_zero v \<longrightarrow> sc ''B/s'' [v] = sc' ''B/s'' [v]"
    and "\<forall>k. rank \<le> k \<and> k < ranks \<longrightarrow>
           geti s k = geti s' k \<and> geti r k = geti r' k \<and> getf t k = getf t' k"
  shows "rankLoop sc s r t ranks rank d = rankLoop sc' s' r' t' ranks rank d"
  using assms
proof (induction sc s r t ranks rank d rule: rankLoop.induct)
  case (1 sc s r t ranks rank d)
  show ?case
  proof (cases "rank < ranks")
    case False
    then show ?thesis by (simp add: rankLoop.simps)
  next
    case True
    with "1.prems"(2) have here:
      "geti s rank = geti s' rank" "geti r rank = geti r' rank" "getf t rank = getf t' rank"
      by simp_all
    note b = rankBody_cong [where sc = sc and sc' = sc' and d = d, OF "1.prems"(1) here]
    have later: "\<forall>k. rank + 1 \<le> k \<and> k < ranks \<longrightarrow>
           geti s k = geti s' k \<and> geti r k = geti r' k \<and> getf t k = getf t' k"
      using "1.prems"(2) by simp
    show ?thesis
    proof (cases "rankBody sc s r t rank d")
      case (Inl a)
      with b have "rankBody sc' s' r' t' rank d = Inl a" by simp
      with True Inl show ?thesis
        by (simp add: rankLoop.simps [of _ _ _ _ ranks rank])
    next
      case (Inr d1)
      with b have "rankBody sc' s' r' t' rank d = Inr d1" by simp
      with "1.IH" [OF True Inr "1.prems"(1) later] True Inr show ?thesis
        by (simp add: rankLoop.simps [of _ _ _ _ ranks rank])
    qed
  qed
qed


lemma GetFromCallCounts_Return:
  "GetFromCallCounts sc ranks s r ss rs t = Return p e \<Longrightarrow>
     (e = None \<and> (\<exists>d. p = Some d \<and> rankLoop sc s r t ranks 0 newCallData = Inr d))
     \<or> (p = None \<and> (\<exists>m. e = Some m \<and> rankLoop sc s r t ranks 0 newCallData = Inl (ReturnError m)))"
  by (auto simp: GetFromCallCounts_def split: sum.splits abort.splits)

lemma GetFromCallCounts_Some:
  "GetFromCallCounts sc ranks s r ss rs t = Return (Some d) e \<Longrightarrow>
     e = None \<and> rankLoop sc s r t ranks 0 newCallData = Inr d"
  by (auto simp: GetFromCallCounts_def split: sum.splits abort.splits)

lemma GetFromCallCounts_cong:
  assumes "\<forall>v. \<not> f64_is_zero v \<longrightarrow> sc ''B/s'' [v] = sc' ''B/s'' [v]"
    and "\<forall>k. 0 \<le> k \<and> k < ranks \<longrightarrow>
           geti s k = geti s' k \<and> geti r k = geti r' k \<and> getf t k = getf t' k"
  shows "GetFromCallCounts sc ranks s r ss rs t = GetFromCallCounts sc' ranks s' r' ss' rs' t'"
  using rankLoop_cong [where sc = sc and sc' = sc', OF assms, of newCallData]
  by (simp add: GetFromCallCounts_def)

lemma callLoop_error:
  assumes "\<exists>c. call \<le> c \<and> c < numCalls \<and> (\<exists>p e. perCall sc ranks s r ss rs t c = Return p (Some e))"
    and "\<forall>c. call \<le> c \<and> c < numCalls \<longrightarrow> perCall sc ranks s r ss rs t c \<noteq> Panic"
  shows "\<exists>c p e. call \<le> c \<and> c < numCalls \<and> perCall sc ranks s r ss rs t c = Return p (Some e)
           \<and> callLoop sc ranks s r ss rs t numCalls call d = Return None (Some e)"
  using assms
proof (induction sc ranks s r ss rs t numCalls call d rule: callLoop.induct)
  case (1 sc ranks s r ss rs t numCalls call d)
  from "1.prems"(1) have lt: "call < numCalls" by auto
  with "1.prems"(2) obtain p err where g: "perCall sc ranks s r ss rs t call = Return p err"
    by (cases "perCall sc ranks s r ss rs t call") auto
  show ?case
  proof (cases err)
    case (Some e)
    with g lt have "callLoop sc ranks s r ss rs t numCalls call d = Return None (Some e)"
      by (simp add: callLoop.simps [of _ _ _ _ _ _ _ numCalls call])
    with g Some lt show ?thesis by auto
  next
    case None
    with "1.prems"(1) g have later:
      "\<exists>c. call + 1 \<le> c \<and> c < numCalls \<and> (\<exists>p e. perCall sc ranks s r ss rs t c = Return p (Some e))"
      by (metis go_result.inject option.distinct(1) add1_zle_eq order_le_less)
    have nopanic: "\<forall>c. call + 1 \<le> c \<and> c < numCalls \<longrightarrow> perCall sc ranks s r ss rs t c \<noteq> Panic"
      using "1.prems"(2) by simp
    define d' where "d' = d\<lparr>CallData := (CallData d)(call := p)\<rparr>"
    from "1.IH" [OF lt g d'_def _ later nopanic] None
    obtain c q e where
      "call + 1 \<le> c" "c < numCalls" "perCall sc ranks s r ss rs t c = Return q (Some e)"
      "callLoop sc ranks s r ss rs t numCalls (call + 1) d' = Return None (Some e)"
      by auto
    moreover from this(4) g lt None
    have "callLoop sc ranks s r ss rs t numCalls call d = Return None (Some e)"
      by (simp add: callLoop.simps [of _ _ _ _ _ _ _ numCalls call] d'_def)
    ultimately show ?thesis by (intro exI [of _ c] exI [of _ q] exI [of _ e]) simp
  qed
qed


lemma callLoop_no_data:
  assumes "\<exists>c. call \<le> c \<and> c < numCalls
             \<and> (\<forall>dc. perCall sc ranks s r ss rs t c \<noteq> Return (Some dc) None)"
    and "\<forall>c p. call \<le> c \<and> c < numCalls \<longrightarrow> perCall sc ranks s r ss rs t c \<noteq> Return None None"
  shows "callLoop sc ranks s r ss rs t numCalls call d = Panic
         \<or> (\<exists>e. callLoop sc ranks s r ss rs t numCalls call d = Return None (Some e))"
  using assms
proof (induction sc ranks s r ss rs t numCalls call d rule: callLoop.induct)
  case (1 sc ranks s r ss rs t numCalls call d)
  from "1.prems"(1) have lt: "call < numCalls" by auto
  show ?case
  proof (cases "perCall sc ranks s r ss rs t call")
    case Panic
    with lt show ?thesis by (simp add: callLoop.simps [of _ _ _ _ _ _ _ numCalls call])
  next
    case (Return p err)
    show ?thesis
    proof (cases err)
      case (Some e)
      with Return lt show ?thesis
        by (simp add: callLoop.simps [of _ _ _ _ _ _ _ numCalls call])
    next
      case None
      with Return "1.prems"(2) lt obtain dc where "p = Some dc"
        by (cases p) auto
      with Return None "1.prems"(1) have later:
        "\<exists>c. call + 1 \<le> c \<and> c < numCalls
             \<and> (\<forall>dc. perCall sc ranks s r ss rs t c \<noteq> Return (Some dc) None)"
        by (metis add1_zle_eq order_le_less)
      have rest: "\<forall>c p. call + 1 \<le> c \<and> c < numCalls \<longrightarrow>
                    perCall sc ranks s r ss rs t c \<noteq> Return None None"
        using "1.prems"(2) by simp
      define d' where "d' = d\<lparr>CallData := (CallData d)(call := p)\<rparr>"
      from "1.IH" [OF lt Return d'_def _ later rest] None
      have "callLoop sc ranks s r ss rs t numCalls (call + 1) d' = Panic
         \<or> (\<exists>e. callLoop sc ranks s r ss rs t numCalls (call + 1) d' = Return None (Some e))"
        by simp
      with Return None lt show ?thesis
        by (simp add: callLoop.simps [of _ _ _ _ _ _ _ numCalls call] d'_def)
    qed
  qed
qed

lemma GetFromCallCounts_not_nil_nil:
  "GetFromCallCounts sc ranks s r ss rs t \<noteq> Return None None"
  by (auto simp: GetFromCallCounts_def split: sum.splits abort.splits)

text \<open>What the loop over the calls has stored when it returns the data.\<close>

lemma callLoop_Some:
  "callLoop sc ranks s r ss rs t numCalls call d = Return (Some d') e \<Longrightarrow>
     e = None
     \<and> (\<forall>c. CallData d' c =
              (if call \<le> c \<and> c < numCalls
               then (case perCall sc ranks s r ss rs t c of Return p _ \<Rightarrow> p | Panic \<Rightarrow> None)
               else CallData d c))
     \<and> (\<forall>c. call \<le> c \<and> c < numCalls \<longrightarrow>
              (\<exists>dc. perCall sc ranks s r ss rs t c = Return (Some dc) None))"
proof (induction sc ranks s r ss rs t numCalls call d rule: callLoop.induct)
  case (1 sc ranks s r ss rs t numCalls call d)
  show ?case
  proof (cases "call < numCalls")
    case False
    with "1.prems" show ?thesis by (auto simp: callLoop.simps)
  next
    case True
    from "1.prems" True obtain p where g: "perCall sc ranks s r ss rs t call = Return p None"
      and l: "callLoop sc ranks s r ss rs t numCalls (call + 1)
                (d\<lparr>CallData := (CallData d)(call := p)\<rparr>) = Return (Some d') e"
      by (auto simp: callLoop.simps [of _ _ _ _ _ _ _ numCalls call] Let_def
               split: go_result.splits if_splits)
    from g GetFromCallCounts_not_nil_nil obtain dc where p: "p = Some dc"
      by (cases p) auto
    define d1 where "d1 = d\<lparr>CallData := (CallData d)(call := p)\<rparr>"
    from "1.IH" [OF True g d1_def _ l [folded d1_def]]
    have ih: "e = None"
      "\<And>c. CallData d' c =
              (if call + 1 \<le> c \<and> c < numCalls
               then (case perCall sc ranks s r ss rs t c of Return p _ \<Rightarrow> p | Panic \<Rightarrow> None)
               else CallData d1 c)"
      "\<And>c. call + 1 \<le> c \<and> c < numCalls \<Longrightarrow>
              (\<exists>dc. perCall sc ranks s r ss rs t c = Return (Some dc) None)"
      by simp_all
    have "CallData d' c =
              (if call \<le> c \<and> c < numCalls
               then (case perCall sc ranks s r ss rs t c of Return p _ \<Rightarrow> p | Panic \<Rightarrow> None)
               else CallData d c)" for c
      using ih(2) [of c] g True by (cases "c = call") (auto simp: d1_def)
    moreover have "\<exists>dc. perCall sc ranks s r ss rs t c = Return (Some dc) None"
      if "call \<le> c \<and> c < numCalls" for c
      using ih(3) [of c] g p that by (cases "c = call") auto
    ultimately show ?thesis using ih(1) by blast
  qed
qed

lemma callLoop_cong:
  assumes "\<forall>c. call \<le> c \<and> c < numCalls \<longrightarrow>
             perCall sc ranks s r ss rs t c = perCall sc' ranks s' r' ss' rs' t' c"
  shows "callLoop sc ranks s r ss rs t numCalls call d
         = callLoop sc' ranks s' r' ss' rs' t' numCalls call d"
  using assms
proof (induction sc ranks s r ss rs t numCalls call d rule: callLoop.induct)
  case (1 sc ranks s r ss rs t numCalls call d)
  show ?case
  proof (cases "call < numCalls")
    case False
    then show ?thesis by (simp add: callLoop.simps)
  next
    case True
    with "1.prems" have here:
      "perCall sc' ranks s' r' ss' rs' t' call = perCall sc ranks s r ss rs t call" by simp
    have later: "\<forall>c. call + 1 \<le> c \<and> c < numCalls \<longrightarrow>
             perCall sc ranks s r ss rs t c = perCall sc' ranks s' r' ss' rs' t' c"
      using "1.prems" by simp
    show ?thesis
    proof (cases "perCall sc ranks s r ss rs t call")
      case Panic
      with True here show ?thesis
        by (simp add: callLoop.simps [of _ _ _ _ _ _ _ numCalls call])
    next
      case (Return p err)
      show ?thesis
      proof (cases err)
        case (Some e)
        with Return True here show ?thesis
          by (simp add: callLoop.simps [of _ _ _ _ _ _ _ numCalls call])
      next
        case None
        define d' where "d' = d\<lparr>CallData := (CallData d)(call := p)\<rparr>"
        from "1.IH" [OF True Return d'_def _ later] None
        have "callLoop sc ranks s r ss rs t numCalls (call + 1) d'
              = callLoop sc' ranks s' r' ss' rs' t' numCalls (call + 1) d'" by simp
        with Return None True here show ?thesis
          by (simp add: callLoop.simps [of _ _ _ _ _ _ _ numCalls call] d'_def)
      qed
    qed
  qed
qed


section \<open>Evaluation on concrete inputs\<close>

lemmas f64_eval =
  f64_of_int_def f64_round_def f64_zero_def f64_1000_def float64_def bits.simps rne_def Let_def

lemma scaleUp_length: "length (snd (scaleUp us u vs)) = length vs"
  by (induction us arbitrary: u vs) simp_all

lemma spec_scale_answers: "\<exists>u y ys. spec_scale ''B/s'' [v] = Inr (u, y # ys)"
proof (cases "f64_is_zero v")
  case True
  then show ?thesis by (simp add: spec_scale_def)
next
  case False
  obtain u ws where s: "scaleUp [''KB/s'', ''MB/s'', ''GB/s'', ''TB/s''] ''B/s'' [v] = (u, ws)"
    by (cases "scaleUp [''KB/s'', ''MB/s'', ''GB/s'', ''TB/s''] ''B/s'' [v]")
  with scaleUp_length [of "[''KB/s'', ''MB/s'', ''GB/s'', ''TB/s'']" "''B/s''" "[v]"]
  have "length ws = 1" by simp
  then obtain y where "ws = [y]" by (cases ws) auto
  with s False show ?thesis by (simp add: spec_scale_def)
qed

lemma float64_values:
  "float64 0 = Finite False 0 (- 1074)"
  "float64 5 = Finite False 5629499534213120 (- 50)"
  "float64 50 = Finite False 7036874417766400 (- 47)"
  "float64 100 = Finite False 7036874417766400 (- 46)"
  "float64 500 = Finite False 8796093022208000 (- 44)"
  "float64 1000 = Finite False 8796093022208000 (- 43)"
  "float64 2000 = Finite False 8796093022208000 (- 42)"
  "float64 5000 = Finite False 5497558138880000 (- 40)"
  by (simp_all add: f64_eval)

lemma f64_of_int_values:
  "f64_of_int 0 = Finite False 0 (- 1074)"
  "f64_of_int 1 = Finite False 4503599627370496 (- 52)"
  "f64_of_int 2 = Finite False 4503599627370496 (- 51)"
  "f64_of_int 5 = Finite False 5629499534213120 (- 50)"
  "f64_of_int 500 = Finite False 8796093022208000 (- 44)"
  "f64_of_int 1000 = Finite False 8796093022208000 (- 43)"
  "f64_of_int 5000 = Finite False 5497558138880000 (- 40)"
  by (simp_all add: f64_eval)


lemmas call_eval =
  GetFromCallCounts_def rankLoop.simps rankBody_def scaleSend_def scaleRecv_def setRankBW_def
  newCallData_def geti_def getf_def getm_def spec_scale_def float64_values f64_of_int_values
  f64_1000_def f64_zero_def f64_round_def bits.simps rne_def Let_def

lemma GetFromCallCounts_domains:
  assumes "GetFromCallCounts sc ranks s r ss rs t = Return (Some d) e"
  shows "SendData d = Map.empty" "RecvData d = Map.empty"
    "dom (SendRankBW d) = {0..<ranks}" "dom (RecvRankBW d) = {0..<ranks}"
    "dom (ScaledSendRankBW d) = {0..<ranks}" "dom (ScaledRecvRankBW d) = {0..<ranks}"
proof -
  from GetFromCallCounts_Some [OF assms]
  have l: "rankLoop sc s r t ranks 0 newCallData = Inr d" by simp
  note inv = rankLoop_Inr [OF l]
  show "SendData d = Map.empty" "RecvData d = Map.empty"
    using inv by (simp_all add: newCallData_def)
  have a: "SendRankBW d k = (if 0 \<le> k \<and> k < ranks then Some (bw s t k) else None)" for k
    using inv by (simp add: newCallData_def)
  show "dom (SendRankBW d) = {0..<ranks}"
    by (auto simp: dom_def a)
  have b: "RecvRankBW d k = (if 0 \<le> k \<and> k < ranks then Some (bw r t k) else None)" for k
    using inv by (simp add: newCallData_def)
  show "dom (RecvRankBW d) = {0..<ranks}"
    by (auto simp: dom_def b)
  have c: "if 0 \<le> k \<and> k < ranks then ScaledSendRankBW d k \<noteq> None
           else ScaledSendRankBW d k = None" for k
    using inv by (simp add: newCallData_def)
  have "ScaledSendRankBW d k \<noteq> None \<longleftrightarrow> 0 \<le> k \<and> k < ranks" for k
    using c [of k] by (auto split: if_splits)
  then show "dom (ScaledSendRankBW d) = {0..<ranks}"
    by (auto simp: dom_def)
  have c': "if 0 \<le> k \<and> k < ranks then ScaledRecvRankBW d k \<noteq> None
           else ScaledRecvRankBW d k = None" for k
    using inv by (simp add: newCallData_def)
  have "ScaledRecvRankBW d k \<noteq> None \<longleftrightarrow> 0 \<le> k \<and> k < ranks" for k
    using c' [of k] by (auto split: if_splits)
  then show "dom (ScaledRecvRankBW d) = {0..<ranks}"
    by (auto simp: dom_def)
qed

section \<open>Claims on the per-call computation\<close>

text \<open>
  C1. When the execution time of every rank in \<open>[0, ranks)\<close> is positive,
  \<^verbatim>\<open>GetFromCallCounts\<close> returns a \<^verbatim>\<open>CallData\<close> and a nil error, and for each of these
  ranks \<^verbatim>\<open>SendRankBW[r]\<close> is the float64 quotient of \<^verbatim>\<open>float64(sendCounts[r])\<close> by
  \<^verbatim>\<open>execTimes[r]\<close>, and \<^verbatim>\<open>RecvRankBW[r]\<close> that of \<^verbatim>\<open>float64(recvCounts[r])\<close>. The only
  source of an error is the scaler; it is assumed to answer every query for one non-zero value
  in \<^verbatim>\<open>B/s\<close> with a unit and at least one value, as the Unit Scaler of the specification does.
\<close>

theorem GetFromCallCounts_bandwidth:
  assumes "\<forall>v. \<not> f64_is_zero v \<longrightarrow> (\<exists>u y ys. scale_Float64s ''B/s'' [v] = Inr (u, y # ys))"
    and "\<forall>r. 0 \<le> r \<and> r < ranks \<longrightarrow> f64_positive (getf execTimes r)"
  shows "\<exists>d. GetFromCallCounts scale_Float64s ranks sendCounts recvCounts sendDatatypeSize
                recvDatatypeSize execTimes = Return (Some d) None
           \<and> (\<forall>r. 0 \<le> r \<and> r < ranks \<longrightarrow>
                 SendRankBW d r
                   = Some (f64_div (float64 (geti sendCounts r)) (getf execTimes r))
                 \<and> RecvRankBW d r
                   = Some (f64_div (float64 (geti recvCounts r)) (getf execTimes r)))"
proof -
  from rankLoop_total [where sc = scale_Float64s, OF assms(1)] obtain d where
    l: "rankLoop scale_Float64s sendCounts recvCounts execTimes ranks 0 newCallData = Inr d"
    by blast
  then have "GetFromCallCounts scale_Float64s ranks sendCounts recvCounts sendDatatypeSize
                recvDatatypeSize execTimes = Return (Some d) None"
    by (simp add: GetFromCallCounts_def)
  moreover from rankLoop_Inr [OF l]
  have "\<forall>r. 0 \<le> r \<and> r < ranks \<longrightarrow>
          SendRankBW d r = Some (bw sendCounts execTimes r)
          \<and> RecvRankBW d r = Some (bw recvCounts execTimes r)"
    by simp
  ultimately show ?thesis by blast
qed

theorem GetFromCallCounts_bandwidth_witness:
  "f64_positive (getf [0 \<mapsto> f64_of_int 1, 1 \<mapsto> f64_of_int 2] 0)
   \<and> f64_positive (getf [0 \<mapsto> f64_of_int 1, 1 \<mapsto> f64_of_int 2] 1)
   \<and> (\<exists>d. GetFromCallCounts spec_scale 2 [0 \<mapsto> 1000, 1 \<mapsto> 2000] [0 \<mapsto> 500, 1 \<mapsto> 0] 4 4
             [0 \<mapsto> f64_of_int 1, 1 \<mapsto> f64_of_int 2] = Return (Some d) None
         \<and> SendRankBW d 0 = Some (f64_of_int 1000) \<and> SendRankBW d 1 = Some (f64_of_int 1000)
         \<and> RecvRankBW d 0 = Some (f64_of_int 500) \<and> RecvRankBW d 1 = Some (f64_of_int 0))"
proof -
  let ?t = "[0 \<mapsto> f64_of_int 1, 1 \<mapsto> f64_of_int 2]"
  have p0: "f64_positive (getf ?t 0)" and p1: "f64_positive (getf ?t 1)"
    by (simp_all add: getf_def f64_of_int_values)
  have ans: "\<forall>v. \<not> f64_is_zero v \<longrightarrow> (\<exists>u y ys. spec_scale ''B/s'' [v] = Inr (u, y # ys))"
    using spec_scale_answers by blast
  have pos: "\<forall>r. 0 \<le> r \<and> r < 2 \<longrightarrow> f64_positive (getf ?t r)"
  proof (intro allI impI)
    fix r :: int
    assume "0 \<le> r \<and> r < 2"
    then have "r = 0 \<or> r = 1" by arith
    with p0 p1 show "f64_positive (getf ?t r)" by auto
  qed
  from GetFromCallCounts_bandwidth [where scale_Float64s = spec_scale, OF ans pos,
      of "[0 \<mapsto> 1000, 1 \<mapsto> 2000]" "[0 \<mapsto> 500, 1 \<mapsto> 0]" 4 4]
  obtain d where
    g: "GetFromCallCounts spec_scale 2 [0 \<mapsto> 1000, 1 \<mapsto> 2000] [0 \<mapsto> 500, 1 \<mapsto> 0] 4 4 ?t
          = Return (Some d) None"
    and v: "\<And>r. 0 \<le> r \<and> r < 2 \<Longrightarrow>
          SendRankBW d r = Some (bw [0 \<mapsto> 1000, 1 \<mapsto> 2000] ?t r)
          \<and> RecvRankBW d r = Some (bw [0 \<mapsto> 500, 1 \<mapsto> 0] ?t r)"
    by blast
  have "SendRankBW d 0 = Some (f64_of_int 1000)" "RecvRankBW d 0 = Some (f64_of_int 500)"
    using v [of 0] by (simp_all add: geti_def getf_def float64_values f64_of_int_values
        f64_round_def bits.simps rne_def Let_def)
  moreover have "SendRankBW d 1 = Some (f64_of_int 1000)" "RecvRankBW d 1 = Some (f64_of_int 0)"
    using v [of 1] by (simp_all add: geti_def getf_def float64_values f64_of_int_values
        f64_round_def bits.simps rne_def Let_def)
  ultimately show ?thesis using p0 p1 g by blast
qed

text \<open>
  C2. The specification asks for an entry for every rank in all the maps of the returned
  \<^verbatim>\<open>CallData\<close>, \<^verbatim>\<open>SendData\<close> and \<^verbatim>\<open>RecvData\<close> included. The function allocates these two
  maps and never stores into them: for one rank with 1000 elements sent and 500 received in one
  second, both are returned empty, next to the four bandwidth maps, which hold their entry.
\<close>

theorem GetFromCallCounts_leaves_SendData_empty:
  "GetFromCallCounts spec_scale 1 [0 \<mapsto> 1000] [0 \<mapsto> 500] 4 4 [0 \<mapsto> f64_of_int 1]
   = Return (Some \<lparr>SendData = Map.empty, RecvData = Map.empty,
       SendRankBW = [0 \<mapsto> f64_of_int 1000], RecvRankBW = [0 \<mapsto> f64_of_int 500],
       ScaledSendRankBW = [0 \<mapsto> f64_of_int 1], ScaledSendRankBWUnit = ''KB/s'',
       ScaledRecvRankBW = [0 \<mapsto> f64_of_int 500], ScaledRecvRankBWUnit = ''B/s''\<rparr>) None"
  by (simp add: call_eval)

text \<open>
  C3. The specification asks that a missing execution time make the call fail. In the code the read
  of the absent key yields 0.0 and the division is carried out: with no execution time at all,
  one rank, five elements sent and none received, the call returns its data and a nil error,
  with the bandwidths \<open>+Inf\<close> and NaN.
\<close>

theorem missing_time_counterexample:
  "GetFromCallCounts spec_scale 1 [0 \<mapsto> 5] [0 \<mapsto> 0] 4 4 Map.empty
   = Return (Some \<lparr>SendData = Map.empty, RecvData = Map.empty,
       SendRankBW = [0 \<mapsto> Infinity False], RecvRankBW = [0 \<mapsto> NaN],
       ScaledSendRankBW = [0 \<mapsto> Infinity False], ScaledSendRankBWUnit = ''TB/s'',
       ScaledRecvRankBW = [0 \<mapsto> NaN], ScaledRecvRankBWUnit = ''B/s''\<rparr>) None"
  by (simp add: call_eval)

text \<open>
  C3, as the code has it. An absent execution time is read as 0.0: the call behaves exactly
  as if the entry were present with the value zero, no error of its own is raised, and, when
  the scaler answers, the call returns with the bandwidth of that rank being the quotient of
  the count by 0.0.
\<close>

theorem missing_time_read_as_zero:
  assumes "execTimes r = None"
  shows "GetFromCallCounts scale_Float64s ranks sendCounts recvCounts sendDatatypeSize
           recvDatatypeSize execTimes
         = GetFromCallCounts scale_Float64s ranks sendCounts recvCounts sendDatatypeSize
             recvDatatypeSize (execTimes(r \<mapsto> f64_zero))
         \<and> ((\<forall>v. \<not> f64_is_zero v \<longrightarrow> (\<exists>u y ys. scale_Float64s ''B/s'' [v] = Inr (u, y # ys)))
              \<and> 0 \<le> r \<and> r < ranks \<longrightarrow>
            (\<exists>d. GetFromCallCounts scale_Float64s ranks sendCounts recvCounts sendDatatypeSize
                    recvDatatypeSize execTimes = Return (Some d) None
                  \<and> SendRankBW d r = Some (f64_div (float64 (geti sendCounts r)) f64_zero)
                  \<and> RecvRankBW d r = Some (f64_div (float64 (geti recvCounts r)) f64_zero)))"
proof
  have "\<forall>k. 0 \<le> k \<and> k < ranks \<longrightarrow>
          geti sendCounts k = geti sendCounts k \<and> geti recvCounts k = geti recvCounts k
          \<and> getf execTimes k = getf (execTimes(r \<mapsto> f64_zero)) k"
    using assms by (simp add: getf_def)
  then show "GetFromCallCounts scale_Float64s ranks sendCounts recvCounts sendDatatypeSize
           recvDatatypeSize execTimes
         = GetFromCallCounts scale_Float64s ranks sendCounts recvCounts sendDatatypeSize
             recvDatatypeSize (execTimes(r \<mapsto> f64_zero))"
    by (intro GetFromCallCounts_cong [where sc = scale_Float64s and sc' = scale_Float64s]) simp_all
next
  show "(\<forall>v. \<not> f64_is_zero v \<longrightarrow> (\<exists>u y ys. scale_Float64s ''B/s'' [v] = Inr (u, y # ys)))
              \<and> 0 \<le> r \<and> r < ranks \<longrightarrow>
            (\<exists>d. GetFromCallCounts scale_Float64s ranks sendCounts recvCounts sendDatatypeSize
                    recvDatatypeSize execTimes = Return (Some d) None
                  \<and> SendRankBW d r = Some (f64_div (float64 (geti sendCounts r)) f64_zero)
                  \<and> RecvRankBW d r = Some (f64_div (float64 (geti recvCounts r)) f64_zero))"
  proof
    assume h: "(\<forall>v. \<not> f64_is_zero v \<longrightarrow> (\<exists>u y ys. scale_Float64s ''B/s'' [v] = Inr (u, y # ys)))
              \<and> 0 \<le> r \<and> r < ranks"
    then have ans: "\<forall>v. \<not> f64_is_zero v \<longrightarrow> (\<exists>u y ys. scale_Float64s ''B/s'' [v] = Inr (u, y # ys))"
      by blast
    from rankLoop_total [where sc = scale_Float64s, OF ans] obtain d where
      l: "rankLoop scale_Float64s sendCounts recvCounts execTimes ranks 0 newCallData = Inr d"
      by blast
    then have "GetFromCallCounts scale_Float64s ranks sendCounts recvCounts sendDatatypeSize
                recvDatatypeSize execTimes = Return (Some d) None"
      by (simp add: GetFromCallCounts_def)
    moreover from rankLoop_Inr [OF l] h assms
    have "SendRankBW d r = Some (f64_div (float64 (geti sendCounts r)) f64_zero)"
      "RecvRankBW d r = Some (f64_div (float64 (geti recvCounts r)) f64_zero)"
      by (simp_all add: getf_def)
    ultimately show "\<exists>d. GetFromCallCounts scale_Float64s ranks sendCounts recvCounts
                    sendDatatypeSize recvDatatypeSize execTimes = Return (Some d) None
                  \<and> SendRankBW d r = Some (f64_div (float64 (geti sendCounts r)) f64_zero)
                  \<and> RecvRankBW d r = Some (f64_div (float64 (geti recvCounts r)) f64_zero)"
      by blast
  qed
qed

theorem missing_time_read_as_zero_witness:
  "(Map.empty :: int \<rightharpoonup> float64) 0 = None
   \<and> GetFromCallCounts spec_scale 1 [0 \<mapsto> 5] [0 \<mapsto> 0] 4 4 Map.empty
     = GetFromCallCounts spec_scale 1 [0 \<mapsto> 5] [0 \<mapsto> 0] 4 4 [0 \<mapsto> f64_zero]
   \<and> (\<exists>d. GetFromCallCounts spec_scale 1 [0 \<mapsto> 5] [0 \<mapsto> 0] 4 4 Map.empty = Return (Some d) None
         \<and> SendRankBW d 0 = Some (Infinity False) \<and> RecvRankBW d 0 = Some NaN)"
proof -
  have ans: "\<forall>v. \<not> f64_is_zero v \<longrightarrow> (\<exists>u y ys. spec_scale ''B/s'' [v] = Inr (u, y # ys))"
    using spec_scale_answers by blast
  have v: "f64_div (float64 (geti [0 \<mapsto> 5] 0)) f64_zero = Infinity False"
    "f64_div (float64 (geti [0 \<mapsto> 0] 0)) f64_zero = NaN"
    by (simp_all add: geti_def float64_values f64_zero_def)
  have n: "(Map.empty :: int \<rightharpoonup> float64) 0 = None" by simp
  note t = missing_time_read_as_zero [where scale_Float64s = spec_scale and r = 0
      and execTimes = Map.empty and ranks = 1 and sendCounts = "[0 \<mapsto> 5]"
      and recvCounts = "[0 \<mapsto> 0]" and sendDatatypeSize = 4 and recvDatatypeSize = 4, OF n]
  from conjunct2 [OF t] ans
  have "\<exists>d. GetFromCallCounts spec_scale 1 [0 \<mapsto> 5] [0 \<mapsto> 0] 4 4 Map.empty = Return (Some d) None
         \<and> SendRankBW d 0 = Some (f64_div (float64 (geti [0 \<mapsto> 5] 0)) f64_zero)
         \<and> RecvRankBW d 0 = Some (f64_div (float64 (geti [0 \<mapsto> 0] 0)) f64_zero)"
    by simp
  then have "\<exists>d. GetFromCallCounts spec_scale 1 [0 \<mapsto> 5] [0 \<mapsto> 0] 4 4 Map.empty = Return (Some d) None
         \<and> SendRankBW d 0 = Some (Infinity False) \<and> RecvRankBW d 0 = Some NaN"
    unfolding v .
  with conjunct1 [OF t] n show ?thesis by blast
qed

text \<open>
  C4. The specification gives every rank with a zero bandwidth the unit \<^verbatim>\<open>B/s\<close>. A
  \<^verbatim>\<open>CallData\<close> holds one unit string for all its send values and one for all its receive
  values, and each iteration overwrites both: with two ranks, rank 0 idle and rank 1 moving
  5000 elements in one second, the zero of rank 0 is copied through, and the unit returned is
  the \<^verbatim>\<open>KB/s\<close> of rank 1.
\<close>

theorem zero_bandwidth_unit_counterexample:
  "GetFromCallCounts spec_scale 2 [0 \<mapsto> 0, 1 \<mapsto> 5000] [0 \<mapsto> 0, 1 \<mapsto> 5000] 4 4
     [0 \<mapsto> f64_of_int 1, 1 \<mapsto> f64_of_int 1]
   = Return (Some \<lparr>SendData = Map.empty, RecvData = Map.empty,
       SendRankBW = [0 \<mapsto> f64_of_int 0, 1 \<mapsto> f64_of_int 5000],
       RecvRankBW = [0 \<mapsto> f64_of_int 0, 1 \<mapsto> f64_of_int 5000],
       ScaledSendRankBW = [0 \<mapsto> f64_of_int 0, 1 \<mapsto> f64_of_int 5],
       ScaledSendRankBWUnit = ''KB/s'',
       ScaledRecvRankBW = [0 \<mapsto> f64_of_int 0, 1 \<mapsto> f64_of_int 5],
       ScaledRecvRankBWUnit = ''KB/s''\<rparr>) None"
  by (simp add: call_eval)


text \<open>
  C4, as the code has it. For a rank of \<open>[0, ranks)\<close> whose send (or receive) bandwidth is
  zero, the zero is copied unchanged into the scaled map. The send (or receive) unit of the
  returned \<^verbatim>\<open>CallData\<close> is \<^verbatim>\<open>B/s\<close> when that rank is the last one. The scaler is not
  consulted on zero values: scalers that agree on every non-zero value give the same result.
\<close>

theorem zero_bandwidth_bypass:
  assumes "GetFromCallCounts scale_Float64s ranks sendCounts recvCounts sendDatatypeSize
             recvDatatypeSize execTimes = Return (Some d) e"
    and "0 \<le> r" and "r < ranks"
  shows "(f64_is_zero (bw sendCounts execTimes r) \<longrightarrow>
            SendRankBW d r = Some (bw sendCounts execTimes r)
            \<and> ScaledSendRankBW d r = SendRankBW d r
            \<and> (r = ranks - 1 \<longrightarrow> ScaledSendRankBWUnit d = ''B/s''))
         \<and> (f64_is_zero (bw recvCounts execTimes r) \<longrightarrow>
            RecvRankBW d r = Some (bw recvCounts execTimes r)
            \<and> ScaledRecvRankBW d r = RecvRankBW d r
            \<and> (r = ranks - 1 \<longrightarrow> ScaledRecvRankBWUnit d = ''B/s''))
         \<and> (\<forall>other. (\<forall>v. \<not> f64_is_zero v \<longrightarrow> other ''B/s'' [v] = scale_Float64s ''B/s'' [v]) \<longrightarrow>
               GetFromCallCounts other ranks sendCounts recvCounts sendDatatypeSize
                 recvDatatypeSize execTimes = Return (Some d) e)"
proof -
  from GetFromCallCounts_Some [OF assms(1)]
  have l: "rankLoop scale_Float64s sendCounts recvCounts execTimes ranks 0 newCallData = Inr d"
    by simp
  from rankLoop_Inr [OF l] assms(2,3)
  have bws: "SendRankBW d r = Some (bw sendCounts execTimes r)"
    "RecvRankBW d r = Some (bw recvCounts execTimes r)"
    by simp_all
  note sc = rankLoop_scaled [OF l assms(2,3)]
  have lt: "(0::int) < ranks" using assms(2,3) by simp
  note un = rankLoop_unit [OF l lt]
  have send: "SendRankBW d r = Some (bw sendCounts execTimes r)
            \<and> ScaledSendRankBW d r = SendRankBW d r
            \<and> (r = ranks - 1 \<longrightarrow> ScaledSendRankBWUnit d = ''B/s'')"
    if "f64_is_zero (bw sendCounts execTimes r)"
    using that bws(1) sc un by auto
  have recv: "RecvRankBW d r = Some (bw recvCounts execTimes r)
            \<and> ScaledRecvRankBW d r = RecvRankBW d r
            \<and> (r = ranks - 1 \<longrightarrow> ScaledRecvRankBWUnit d = ''B/s'')"
    if "f64_is_zero (bw recvCounts execTimes r)"
    using that bws(2) sc un by auto
  have indep: "GetFromCallCounts other ranks sendCounts recvCounts sendDatatypeSize
                 recvDatatypeSize execTimes = Return (Some d) e"
    if "\<forall>v. \<not> f64_is_zero v \<longrightarrow> other ''B/s'' [v] = scale_Float64s ''B/s'' [v]" for other
    using GetFromCallCounts_cong [where sc = other and sc' = scale_Float64s, OF that,
        of ranks sendCounts sendCounts recvCounts recvCounts execTimes execTimes
          sendDatatypeSize recvDatatypeSize sendDatatypeSize recvDatatypeSize]
      assms(1)
    by simp
  from send recv indep show ?thesis by blast
qed

theorem zero_bandwidth_bypass_witness:
  "\<exists>d. GetFromCallCounts spec_scale 2 [0 \<mapsto> 5000, 1 \<mapsto> 0] [0 \<mapsto> 5000, 1 \<mapsto> 0] 4 4
          [0 \<mapsto> f64_of_int 1, 1 \<mapsto> f64_of_int 1] = Return (Some d) None
       \<and> f64_is_zero (bw [0 \<mapsto> 5000, 1 \<mapsto> 0] [0 \<mapsto> f64_of_int 1, 1 \<mapsto> f64_of_int 1] 1)
       \<and> SendRankBW d 1 = Some (f64_of_int 0) \<and> ScaledSendRankBW d 1 = Some (f64_of_int 0)
       \<and> ScaledSendRankBWUnit d = ''B/s''
       \<and> RecvRankBW d 1 = Some (f64_of_int 0) \<and> ScaledRecvRankBW d 1 = Some (f64_of_int 0)
       \<and> ScaledRecvRankBWUnit d = ''B/s''"
proof -
  let ?c = "[0 \<mapsto> 5000, 1 \<mapsto> 0 :: go_int]"
  let ?t = "[0 \<mapsto> f64_of_int 1, 1 \<mapsto> f64_of_int 1]"
  have ans: "\<forall>v. \<not> f64_is_zero v \<longrightarrow> (\<exists>u y ys. spec_scale ''B/s'' [v] = Inr (u, y # ys))"
    using spec_scale_answers by blast
  from rankLoop_total [where sc = spec_scale, OF ans] obtain d where
    "rankLoop spec_scale ?c ?c ?t 2 0 newCallData = Inr d" by blast
  then have g: "GetFromCallCounts spec_scale 2 ?c ?c 4 4 ?t = Return (Some d) None"
    by (simp add: GetFromCallCounts_def)
  have z: "bw ?c ?t 1 = f64_of_int 0"
    by (simp add: geti_def getf_def float64_values f64_of_int_values)
  then have zero: "f64_is_zero (bw ?c ?t 1)"
    by (simp add: f64_of_int_values)
  from zero_bandwidth_bypass [OF g, of 1] zero
  have "SendRankBW d 1 = Some (bw ?c ?t 1)" "ScaledSendRankBW d 1 = SendRankBW d 1"
    "ScaledSendRankBWUnit d = ''B/s''"
    "RecvRankBW d 1 = Some (bw ?c ?t 1)" "ScaledRecvRankBW d 1 = RecvRankBW d 1"
    "ScaledRecvRankBWUnit d = ''B/s''"
    by simp_all
  with g zero z show ?thesis by simp
qed

text \<open>
  C5. The two datatype sizes are arguments of \<^verbatim>\<open>GetFromCallCounts\<close> and of
  \<^verbatim>\<open>GetFromCallsCounts\<close> and have no influence on what they return: the bandwidth is the
  count divided by the time, whatever the size of an element.
\<close>

theorem datatype_sizes_unused:
  "GetFromCallCounts scale_Float64s ranks sendCounts recvCounts sendDatatypeSize
     recvDatatypeSize execTimes
   = GetFromCallCounts scale_Float64s ranks sendCounts recvCounts sendDatatypeSize'
       recvDatatypeSize' execTimes
   \<and> GetFromCallsCounts scale_Float64s numCalls ranks allSendCounts allRecvCounts
       sendDatatypeSize recvDatatypeSize allExecTimes
     = GetFromCallsCounts scale_Float64s numCalls ranks allSendCounts allRecvCounts
         sendDatatypeSize' recvDatatypeSize' allExecTimes"
proof
  show "GetFromCallCounts scale_Float64s ranks sendCounts recvCounts sendDatatypeSize
     recvDatatypeSize execTimes
   = GetFromCallCounts scale_Float64s ranks sendCounts recvCounts sendDatatypeSize'
       recvDatatypeSize' execTimes"
    by (simp add: GetFromCallCounts_def)
next
  have "perCall scale_Float64s ranks allSendCounts allRecvCounts sendDatatypeSize
          recvDatatypeSize allExecTimes c
        = perCall scale_Float64s ranks allSendCounts allRecvCounts sendDatatypeSize'
            recvDatatypeSize' allExecTimes c" for c
    by (simp add: GetFromCallCounts_def)
  then show "GetFromCallsCounts scale_Float64s numCalls ranks allSendCounts allRecvCounts
       sendDatatypeSize recvDatatypeSize allExecTimes
     = GetFromCallsCounts scale_Float64s numCalls ranks allSendCounts allRecvCounts
         sendDatatypeSize' recvDatatypeSize' allExecTimes"
    unfolding GetFromCallsCounts_def
    by (intro callLoop_cong) simp
qed


section \<open>Claims on the computation for all calls\<close>

text \<open>
  C6. When the per-call computation of some call in \<open>[0, numCalls)\<close> does not return its
  data with a nil error, \<^verbatim>\<open>GetFromCallsCounts\<close> returns no data: it returns a nil pointer
  with an error, or it panics where the per-call computation does. When no per-call
  computation panics, it returns the nil pointer together with the error of a failing call.
\<close>

theorem GetFromCallsCounts_fails_fast:
  assumes "\<exists>c. 0 \<le> c \<and> c < numCalls
             \<and> (\<forall>dc. perCall scale_Float64s ranks sendCounts recvCounts sendDatatypeSize
                        recvDatatypeSize execTimes c \<noteq> Return (Some dc) None)"
  shows "(GetFromCallsCounts scale_Float64s numCalls ranks sendCounts recvCounts
            sendDatatypeSize recvDatatypeSize execTimes = Panic
          \<or> (\<exists>e. GetFromCallsCounts scale_Float64s numCalls ranks sendCounts recvCounts
                    sendDatatypeSize recvDatatypeSize execTimes = Return None (Some e)))
         \<and> ((\<forall>c. 0 \<le> c \<and> c < numCalls \<longrightarrow>
                  perCall scale_Float64s ranks sendCounts recvCounts sendDatatypeSize
                    recvDatatypeSize execTimes c \<noteq> Panic) \<longrightarrow>
             (\<exists>c p e. 0 \<le> c \<and> c < numCalls
                \<and> perCall scale_Float64s ranks sendCounts recvCounts sendDatatypeSize
                     recvDatatypeSize execTimes c = Return p (Some e)
                \<and> GetFromCallsCounts scale_Float64s numCalls ranks sendCounts recvCounts
                     sendDatatypeSize recvDatatypeSize execTimes = Return None (Some e)))"
proof
  show "GetFromCallsCounts scale_Float64s numCalls ranks sendCounts recvCounts
            sendDatatypeSize recvDatatypeSize execTimes = Panic
          \<or> (\<exists>e. GetFromCallsCounts scale_Float64s numCalls ranks sendCounts recvCounts
                    sendDatatypeSize recvDatatypeSize execTimes = Return None (Some e))"
    unfolding GetFromCallsCounts_def
    using assms by (intro callLoop_no_data) (simp_all add: GetFromCallCounts_not_nil_nil)
next
  show "(\<forall>c. 0 \<le> c \<and> c < numCalls \<longrightarrow>
                  perCall scale_Float64s ranks sendCounts recvCounts sendDatatypeSize
                    recvDatatypeSize execTimes c \<noteq> Panic) \<longrightarrow>
             (\<exists>c p e. 0 \<le> c \<and> c < numCalls
                \<and> perCall scale_Float64s ranks sendCounts recvCounts sendDatatypeSize
                     recvDatatypeSize execTimes c = Return p (Some e)
                \<and> GetFromCallsCounts scale_Float64s numCalls ranks sendCounts recvCounts
                     sendDatatypeSize recvDatatypeSize execTimes = Return None (Some e))"
  proof
    assume nopanic: "\<forall>c. 0 \<le> c \<and> c < numCalls \<longrightarrow>
                  perCall scale_Float64s ranks sendCounts recvCounts sendDatatypeSize
                    recvDatatypeSize execTimes c \<noteq> Panic"
    from assms obtain c where c: "0 \<le> c" "c < numCalls"
      and bad: "\<forall>dc. perCall scale_Float64s ranks sendCounts recvCounts sendDatatypeSize
                        recvDatatypeSize execTimes c \<noteq> Return (Some dc) None"
      by blast
    from nopanic c obtain p err where
      g: "perCall scale_Float64s ranks sendCounts recvCounts sendDatatypeSize
            recvDatatypeSize execTimes c = Return p err"
      by (cases "perCall scale_Float64s ranks sendCounts recvCounts sendDatatypeSize
            recvDatatypeSize execTimes c") auto
    from GetFromCallCounts_Return [OF g] bad g obtain m where "err = Some m"
      by auto
    with g c have "\<exists>c. 0 \<le> c \<and> c < numCalls
        \<and> (\<exists>p e. perCall scale_Float64s ranks sendCounts recvCounts sendDatatypeSize
                    recvDatatypeSize execTimes c = Return p (Some e))"
      by blast
    from callLoop_error [OF this nopanic]
    show "\<exists>c p e. 0 \<le> c \<and> c < numCalls
                \<and> perCall scale_Float64s ranks sendCounts recvCounts sendDatatypeSize
                     recvDatatypeSize execTimes c = Return p (Some e)
                \<and> GetFromCallsCounts scale_Float64s numCalls ranks sendCounts recvCounts
                     sendDatatypeSize recvDatatypeSize execTimes = Return None (Some e)"
      by (simp add: GetFromCallsCounts_def)
  qed
qed

theorem GetFromCallsCounts_fails_fast_witness:
  "perCall (\<lambda>unit vs. Inl ''cannot scale'') 1 [0 \<mapsto> [0 \<mapsto> 0], 1 \<mapsto> [0 \<mapsto> 5]]
       [0 \<mapsto> [0 \<mapsto> 0], 1 \<mapsto> [0 \<mapsto> 0]] 4 4
       [0 \<mapsto> [0 \<mapsto> f64_of_int 1], 1 \<mapsto> [0 \<mapsto> f64_of_int 1]] 1
     = Return None (Some ''cannot scale'')
   \<and> GetFromCallsCounts (\<lambda>unit vs. Inl ''cannot scale'') 2 1 [0 \<mapsto> [0 \<mapsto> 0], 1 \<mapsto> [0 \<mapsto> 5]]
       [0 \<mapsto> [0 \<mapsto> 0], 1 \<mapsto> [0 \<mapsto> 0]] 4 4
       [0 \<mapsto> [0 \<mapsto> f64_of_int 1], 1 \<mapsto> [0 \<mapsto> f64_of_int 1]]
     = Return None (Some ''cannot scale'')"
proof -
  let ?sc = "(\<lambda>unit vs. Inl ''cannot scale'') :: scaler"
  let ?s = "[0 \<mapsto> [0 \<mapsto> 0], 1 \<mapsto> [0 \<mapsto> 5 :: go_int]]"
  let ?r = "[0 \<mapsto> [0 \<mapsto> 0], 1 \<mapsto> [0 \<mapsto> 0 :: go_int]]"
  let ?t = "[0 \<mapsto> [0 \<mapsto> f64_of_int 1], 1 \<mapsto> [0 \<mapsto> f64_of_int 1]]"
  have c1: "perCall ?sc 1 ?s ?r 4 4 ?t 1 = Return None (Some ''cannot scale'')"
    by (simp add: call_eval)
  have c0: "perCall ?sc 1 ?s ?r 4 4 ?t 0 \<noteq> Panic"
    by (simp add: call_eval)
  have bad: "\<exists>c. 0 \<le> c \<and> c < 2 \<and> (\<forall>dc. perCall ?sc 1 ?s ?r 4 4 ?t c \<noteq> Return (Some dc) None)"
    using c1 by (intro exI [of _ 1]) simp
  have nopanic: "\<forall>c. 0 \<le> c \<and> c < 2 \<longrightarrow> perCall ?sc 1 ?s ?r 4 4 ?t c \<noteq> Panic"
  proof (intro allI impI)
    fix c :: int
    assume "0 \<le> c \<and> c < 2"
    then have "c = 0 \<or> c = 1" by arith
    with c0 c1 show "perCall ?sc 1 ?s ?r 4 4 ?t c \<noteq> Panic" by auto
  qed
  from GetFromCallsCounts_fails_fast [OF bad] nopanic
  obtain c p e where "0 \<le> c" "c < 2" "perCall ?sc 1 ?s ?r 4 4 ?t c = Return p (Some e)"
    and res: "GetFromCallsCounts ?sc 2 1 ?s ?r 4 4 ?t = Return None (Some e)"
    by blast
  moreover from this(1,2) have "c = 0 \<or> c = 1" by arith
  moreover have "perCall ?sc 1 ?s ?r 4 4 ?t 0 \<noteq> Return p (Some e)"
    by (simp add: call_eval)
  ultimately have "e = ''cannot scale''" using c1 by auto
  with res c1 show ?thesis by simp
qed

text \<open>
  C10. \<^verbatim>\<open>GetFromCallsCounts\<close> is a function of its arguments, and of no more than what
  it reads of them: two invocations return the same result whenever their arguments give the
  same counts and times at every call of \<open>[0, numCalls)\<close> and rank of \<open>[0, ranks)\<close>, and
  the scaler gives the same answers on non-zero values.
\<close>

theorem GetFromCallsCounts_function_of_inputs:
  assumes "\<forall>v. \<not> f64_is_zero v \<longrightarrow> scale_Float64s ''B/s'' [v] = scale_Float64s' ''B/s'' [v]"
    and "\<forall>c k. 0 \<le> c \<and> c < numCalls \<and> 0 \<le> k \<and> k < ranks \<longrightarrow>
           geti (getm sendCounts c) k = geti (getm sendCounts' c) k
           \<and> geti (getm recvCounts c) k = geti (getm recvCounts' c) k
           \<and> getf (getm execTimes c) k = getf (getm execTimes' c) k"
  shows "GetFromCallsCounts scale_Float64s numCalls ranks sendCounts recvCounts
           sendDatatypeSize recvDatatypeSize execTimes
         = GetFromCallsCounts scale_Float64s' numCalls ranks sendCounts' recvCounts'
             sendDatatypeSize' recvDatatypeSize' execTimes'"
proof -
  have "perCall scale_Float64s ranks sendCounts recvCounts sendDatatypeSize recvDatatypeSize
          execTimes c
        = perCall scale_Float64s' ranks sendCounts' recvCounts' sendDatatypeSize'
            recvDatatypeSize' execTimes' c"
    if "0 \<le> c \<and> c < numCalls" for c
    using assms(2) that
    by (intro GetFromCallCounts_cong [where sc = scale_Float64s and sc' = scale_Float64s',
          OF assms(1)]) simp
  then show ?thesis
    unfolding GetFromCallsCounts_def by (intro callLoop_cong) simp
qed

theorem GetFromCallsCounts_function_of_inputs_witness:
  "GetFromCallsCounts spec_scale 1 1 [0 \<mapsto> [0 \<mapsto> 1000]] [0 \<mapsto> [0 \<mapsto> 500]] 4 4
     [0 \<mapsto> [0 \<mapsto> f64_of_int 1]]
   = GetFromCallsCounts spec_scale 1 1 [0 \<mapsto> [0 \<mapsto> 1000, 1 \<mapsto> 7], 1 \<mapsto> [0 \<mapsto> 3]]
       [0 \<mapsto> [0 \<mapsto> 500]] 8 8 [0 \<mapsto> [0 \<mapsto> f64_of_int 1], 2 \<mapsto> Map.empty]"
proof -
  have same: "\<forall>v. \<not> f64_is_zero v \<longrightarrow> spec_scale ''B/s'' [v] = spec_scale ''B/s'' [v]"
    by simp
  have reads: "\<forall>c k. 0 \<le> c \<and> c < 1 \<and> 0 \<le> k \<and> k < 1 \<longrightarrow>
           geti (getm [0 \<mapsto> [0 \<mapsto> 1000]] c) k
             = geti (getm [0 \<mapsto> [0 \<mapsto> 1000, 1 \<mapsto> 7], 1 \<mapsto> [0 \<mapsto> 3]] c) k
           \<and> geti (getm [0 \<mapsto> [0 \<mapsto> 500]] c) k = geti (getm [0 \<mapsto> [0 \<mapsto> 500]] c) k
           \<and> getf (getm [0 \<mapsto> [0 \<mapsto> f64_of_int 1]] c) k
             = getf (getm [0 \<mapsto> [0 \<mapsto> f64_of_int 1], 2 \<mapsto> Map.empty] c) k"
  proof (intro allI impI)
    fix c k :: int
    assume "0 \<le> c \<and> c < 1 \<and> 0 \<le> k \<and> k < 1"
    then have "c = 0" "k = 0" by simp_all
    then show "geti (getm [0 \<mapsto> [0 \<mapsto> 1000]] c) k
             = geti (getm [0 \<mapsto> [0 \<mapsto> 1000, 1 \<mapsto> 7], 1 \<mapsto> [0 \<mapsto> 3]] c) k
           \<and> geti (getm [0 \<mapsto> [0 \<mapsto> 500]] c) k = geti (getm [0 \<mapsto> [0 \<mapsto> 500]] c) k
           \<and> getf (getm [0 \<mapsto> [0 \<mapsto> f64_of_int 1]] c) k
             = getf (getm [0 \<mapsto> [0 \<mapsto> f64_of_int 1], 2 \<mapsto> Map.empty] c) k"
      by (simp add: geti_def getf_def getm_def)
  qed
  from GetFromCallsCounts_function_of_inputs [where scale_Float64s = spec_scale
      and scale_Float64s' = spec_scale, OF same reads]
  show ?thesis .
qed

section \<open>The reduction of the raw counts\<close>

lemma addCounts_other: "k \<noteq> rank \<Longrightarrow> addCounts m rank cs k = m k"
  by (induction cs arbitrary: m) simp_all

lemma addCounts_geti: "geti (addCounts m rank cs) rank = geti m rank + sum_list cs"
  by (induction cs arbitrary: m) (simp_all add: geti_def)

lemma addRanks_other: "k \<notin> fst ` set ranksData \<Longrightarrow> addRanks m ranksData k = m k"
  by (induction ranksData arbitrary: m) (auto simp: addCounts_other)

lemma addRanks_geti:
  "distinct (map fst ranksData) \<Longrightarrow> (rank, cs) \<in> set ranksData \<Longrightarrow>
     geti (addRanks m ranksData) rank = geti m rank + sum_list cs"
proof (induction ranksData arbitrary: m)
  case Nil
  then show ?case by simp
next
  case (Cons e ranksData)
  obtain r0 c0 where e: "e = (r0, c0)" by (cases e)
  show ?case
  proof (cases "(rank, cs) = (r0, c0)")
    case True
    with Cons.prems e have "rank \<notin> fst ` set ranksData" by auto
    from addRanks_other [OF this] True e show ?thesis
      by (simp add: geti_def addCounts_geti [unfolded geti_def])
  next
    case False
    with Cons.prems e have mem: "(rank, cs) \<in> set ranksData" and ne: "rank \<noteq> r0"
      by (auto simp: image_iff)
    from Cons.prems have "distinct (map fst ranksData)" by simp
    from Cons.IH [OF this mem, of "addCounts m r0 c0"] ne e show ?thesis
      by (simp add: geti_def addCounts_other)
  qed
qed

lemma sendLoop_other:
  "callId \<notin> fst ` set callsData \<Longrightarrow> fst (sendLoop (sendData, allCalls) callsData) callId = sendData callId"
  by (induction callsData arbitrary: sendData allCalls) auto

lemma sendLoop_entry:
  "distinct (map fst callsData) \<Longrightarrow> (callId, callData) \<in> set callsData \<Longrightarrow>
     fst (sendLoop (sendData, allCalls) callsData) callId
       = Some (addRanks Map.empty (ranksOf (counts_SendData callData) callId))"
proof (induction callsData arbitrary: sendData allCalls)
  case Nil
  then show ?case by simp
next
  case (Cons e callsData)
  obtain c0 d0 where e: "e = (c0, d0)" by (cases e)
  show ?case
  proof (cases "(callId, callData) = (c0, d0)")
    case True
    with Cons.prems e have "callId \<notin> fst ` set callsData" by auto
    from sendLoop_other [OF this] True e show ?thesis by simp
  next
    case False
    with Cons.prems e have mem: "(callId, callData) \<in> set callsData" by auto
    from Cons.prems have "distinct (map fst callsData)" by simp
    from Cons.IH [OF this mem] e show ?thesis by simp
  qed
qed

lemma sendLoop_allCalls:
  "snd (sendLoop (sendData, allCalls) callsData) = allCalls @ map fst callsData"
  by (induction callsData arbitrary: sendData allCalls) auto

lemma recvLoop_other:
  "callId \<notin> fst ` set callsData \<Longrightarrow> recvLoop recvData callsData callId = recvData callId"
  by (induction callsData arbitrary: recvData) auto

lemma recvLoop_entry:
  "distinct (map fst callsData) \<Longrightarrow> (callId, callData) \<in> set callsData \<Longrightarrow>
     recvLoop recvData callsData callId
       = Some (addRanks Map.empty (ranksOf (counts_RecvData callData) callId))"
proof (induction callsData arbitrary: recvData)
  case Nil
  then show ?case by simp
next
  case (Cons e callsData)
  obtain c0 d0 where e: "e = (c0, d0)" by (cases e)
  show ?case
  proof (cases "(callId, callData) = (c0, d0)")
    case True
    with Cons.prems e have "callId \<notin> fst ` set callsData" by auto
    from recvLoop_other [OF this] True e show ?thesis by simp
  next
    case False
    with Cons.prems e have mem: "(callId, callData) \<in> set callsData" by auto
    from Cons.prems have "distinct (map fst callsData)" by simp
    from Cons.IH [OF this mem] e show ?thesis by simp
  qed
qed

text \<open>
  C7. The maps handed to \<^verbatim>\<open>GetFromCallsCounts\<close> are those the two loops over
  \<^verbatim>\<open>callsData\<close> build. For every call of \<^verbatim>\<open>callsData\<close> and every rank with a list of raw
  send counts for that call, the send total read for that call and rank is the sum of the list
  (in the arithmetic of Go's \<^verbatim>\<open>int\<close>), and likewise for the receive counts; the maps hold
  integers, never lists. The keys of a Go map are distinct.
\<close>

theorem raw_counts_reduced:
  assumes "distinct (map fst callsData)" and "(callId, callData) \<in> set callsData"
  shows "(\<forall>ranksData counts.
            CallCounts (counts_SendData callData) callId = Some ranksData
            \<and> distinct (map fst ranksData) \<and> (rank, counts) \<in> set ranksData \<longrightarrow>
            geti (getm (fst (sendLoop (Map.empty, []) callsData)) callId) rank = sum_list counts)
         \<and> (\<forall>ranksData counts.
            CallCounts (counts_RecvData callData) callId = Some ranksData
            \<and> distinct (map fst ranksData) \<and> (rank, counts) \<in> set ranksData \<longrightarrow>
            geti (getm (recvLoop Map.empty callsData) callId) rank = sum_list counts)"
proof (intro conjI allI impI)
  fix ranksData counts
  assume h: "CallCounts (counts_SendData callData) callId = Some ranksData
             \<and> distinct (map fst ranksData) \<and> (rank, counts) \<in> set ranksData"
  with sendLoop_entry [OF assms]
  have "getm (fst (sendLoop (Map.empty, []) callsData)) callId = addRanks Map.empty ranksData"
    by (simp add: getm_def ranksOf_def)
  with h addRanks_geti [of ranksData rank counts Map.empty]
  show "geti (getm (fst (sendLoop (Map.empty, []) callsData)) callId) rank = sum_list counts"
    by (simp add: geti_def)
next
  fix ranksData counts
  assume h: "CallCounts (counts_RecvData callData) callId = Some ranksData
             \<and> distinct (map fst ranksData) \<and> (rank, counts) \<in> set ranksData"
  with recvLoop_entry [OF assms]
  have "getm (recvLoop Map.empty callsData) callId = addRanks Map.empty ranksData"
    by (simp add: getm_def ranksOf_def)
  with h addRanks_geti [of ranksData rank counts Map.empty]
  show "geti (getm (recvLoop Map.empty callsData) callId) rank = sum_list counts"
    by (simp add: geti_def)
qed

theorem raw_counts_reduced_witness:
  "geti (getm (fst (sendLoop (Map.empty, [])
      [(2, \<lparr>counts_SendData = \<lparr>CallCounts = [2 \<mapsto> [(0, [7]), (1, [3, 4, 5])]]\<rparr>,
            counts_RecvData = \<lparr>CallCounts = [2 \<mapsto> [(1, [10, 20]), (0, [])]]\<rparr>\<rparr>)])) 2) 1 = 12
   \<and> geti (getm (recvLoop Map.empty
      [(2, \<lparr>counts_SendData = \<lparr>CallCounts = [2 \<mapsto> [(0, [7]), (1, [3, 4, 5])]]\<rparr>,
            counts_RecvData = \<lparr>CallCounts = [2 \<mapsto> [(1, [10, 20]), (0, [])]]\<rparr>\<rparr>)]) 2) 1 = 30"
proof -
  let ?cd = "\<lparr>counts_SendData = \<lparr>CallCounts = [2 \<mapsto> [(0, [7]), (1, [3, 4, 5 :: go_int])]]\<rparr>,
            counts_RecvData = \<lparr>CallCounts = [2 \<mapsto> [(1, [10, 20 :: go_int]), (0, [])]]\<rparr>\<rparr>"
  have d: "distinct (map fst [(2 :: int, ?cd)])" and m: "(2, ?cd) \<in> set [(2, ?cd)]"
    by simp_all
  note t = raw_counts_reduced [OF d m, of 1]
  from conjunct1 [OF t, rule_format, of "[(0, [7]), (1, [3, 4, 5])]" "[3, 4, 5]"]
  have "geti (getm (fst (sendLoop (Map.empty, []) [(2, ?cd)])) 2) 1 = 12" by simp
  moreover from conjunct2 [OF t, rule_format, of "[(1, [10, 20]), (0, [])]" "[10, 20]"]
  have "geti (getm (recvLoop Map.empty [(2, ?cd)]) 2) 1 = 30" by simp
  ultimately show ?thesis by simp
qed

section \<open>The report\<close>

lemma WriteString_Inr: "WriteString f s = Inr f' \<Longrightarrow> content f' = content f @ s"
  by (auto simp: WriteString_def split: if_splits)

text \<open>The row of one rank, as the report loop reads it from a \<^verbatim>\<open>CallData\<close>.\<close>

lemma writeRanks_Inr:
  "writeRanks d numRanks rank f = Inr f' \<Longrightarrow>
     (rank < numRanks \<longrightarrow> d \<noteq> None)
     \<and> content f' = content f
         @ concat (map (\<lambda>k. spec_line (getf (SendRankBW (the d)) k, getf (RecvRankBW (the d)) k))
                     [rank..numRanks - 1])"
proof (induction d numRanks rank f rule: writeRanks.induct)
  case (1 d numRanks rank f)
  show ?case
  proof (cases "rank < numRanks")
    case False
    with "1.prems" show ?thesis by (simp add: writeRanks.simps)
  next
    case True
    with "1.prems" obtain cd f1 where d: "d = Some cd"
      and w: "WriteString f (fmt_2f (getf (SendRankBW cd) rank) @ [tab]
                @ fmt_2f (getf (RecvRankBW cd) rank) @ [nl]) = Inr f1"
      and l: "writeRanks d numRanks (rank + 1) f1 = Inr f'"
      by (auto simp: writeRanks.simps [of d numRanks rank] split: option.splits sum.splits)
    from "1.IH" [OF True d w l]
    have "content f' = content f1
         @ concat (map (\<lambda>k. spec_line (getf (SendRankBW (the d)) k, getf (RecvRankBW (the d)) k))
                     [rank + 1..numRanks - 1])"
      by simp
    moreover from True have "[rank..numRanks - 1] = rank # [rank + 1..numRanks - 1]"
      by (simp add: upto_rec1)
    ultimately show ?thesis
      using WriteString_Inr [OF w] d by (simp add: spec_line_def)
  qed
qed

lemma writeCalls_Inr:
  "writeCalls (Some bwData) numRanks allCalls f = Inr f' \<Longrightarrow>
     (0 < numRanks \<longrightarrow> (\<forall>c \<in> set allCalls. CallData bwData c \<noteq> None))
     \<and> content f' = content f
         @ concat (map (\<lambda>c. spec_block c
                     (map (\<lambda>k. (getf (SendRankBW (the (CallData bwData c))) k,
                                 getf (RecvRankBW (the (CallData bwData c))) k))
                        [0..numRanks - 1]))
                   allCalls)"
proof (induction allCalls arbitrary: f)
  case Nil
  then show ?case by simp
next
  case (Cons callId allCalls)
  from Cons.prems obtain f1 f2 f3 where
    w1: "WriteString f (''# Call '' @ fmt_d callId @ [nl]
              @ ''send BW (B/s)'' @ [tab] @ ''receive BW (B/s)'' @ [nl]) = Inr f1"
    and r: "writeRanks (CallData bwData callId) numRanks 0 f1 = Inr f2"
    and w2: "WriteString f2 [nl] = Inr f3"
    and l: "writeCalls (Some bwData) numRanks allCalls f3 = Inr f'"
    by (auto split: sum.splits)
  note ih = Cons.IH [OF l]
  note rk = writeRanks_Inr [OF r]
  have "content f3 = content f @ spec_block callId
                     (map (\<lambda>k. (getf (SendRankBW (the (CallData bwData callId))) k,
                                 getf (RecvRankBW (the (CallData bwData callId))) k))
                        [0..numRanks - 1])"
    using WriteString_Inr [OF w1] WriteString_Inr [OF w2] rk
    by (simp add: spec_block_def comp_def)
  with ih rk show ?case by simp
qed

subsection \<open>How the loop body can complete\<close>

lemma main_save_Completed:
  "status (main_save outputFilePath created bwData numRanks allCalls) = Completed \<Longrightarrow>
     \<exists>writes f. created = Inr writes
       \<and> writeCalls bwData numRanks allCalls \<lparr>content = [], budget = writes\<rparr> = Inr f
       \<and> report (main_save outputFilePath created bwData numRanks allCalls) = Some f"
  by (auto simp: main_save_def exit1_def panic_def
           split: sum.splits write_abort.splits prod.splits)

lemma callLoop_not_nil_nil:
  "callLoop sc ranks s r ss rs t numCalls call d \<noteq> Return None None"
proof (induction sc ranks s r ss rs t numCalls call d rule: callLoop.induct)
  case (1 sc ranks s r ss rs t numCalls call d)
  show ?case
  proof (cases "call < numCalls")
    case False
    then show ?thesis by (simp add: callLoop.simps)
  next
    case True
    show ?thesis
    proof (cases "perCall sc ranks s r ss rs t call")
      case Panic
      with True show ?thesis by (simp add: callLoop.simps [of _ _ _ _ _ _ _ numCalls call])
    next
      case (Return p err)
      show ?thesis
      proof (cases err)
        case (Some e)
        with Return True show ?thesis
          by (simp add: callLoop.simps [of _ _ _ _ _ _ _ numCalls call])
      next
        case None
        define d' where "d' = d\<lparr>CallData := (CallData d)(call := p)\<rparr>"
        from "1.IH" [OF True Return d'_def] None
        have "callLoop sc ranks s r ss rs t numCalls (call + 1) d' \<noteq> Return None None"
          by simp
        with Return None True show ?thesis
          by (simp add: callLoop.simps [of _ _ _ _ _ _ _ numCalls call] d'_def)
      qed
    qed
  qed
qed

lemma main_calculate_Completed:
  assumes "status (main_calculate sc outputFilePath created commCounts numCalls sendData recvData
             allCalls execTimes) = Completed"
  shows "\<exists>first others bwData. commCounts = first # others
       \<and> GetFromCallsCounts sc numCalls (sint (CommSize (Counts first))) sendData recvData
           (SendDatatypeSize (Counts first)) (RecvDatatypeSize (Counts first)) execTimes
         = Return (Some bwData) None
       \<and> main_calculate sc outputFilePath created commCounts numCalls sendData recvData allCalls
           execTimes
         = main_save outputFilePath created (Some bwData) (sint (CommSize (Counts first)))
             allCalls"
proof -
  from assms obtain first others where cc: "commCounts = first # others"
    by (cases commCounts) (auto simp: main_calculate_def panic_def)
  let ?g = "GetFromCallsCounts sc numCalls (sint (CommSize (Counts first))) sendData recvData
           (SendDatatypeSize (Counts first)) (RecvDatatypeSize (Counts first)) execTimes"
  from assms cc obtain p where g: "?g = Return p None"
    and c: "main_calculate sc outputFilePath created commCounts numCalls sendData recvData allCalls
              execTimes
            = main_save outputFilePath created p (sint (CommSize (Counts first))) allCalls"
    by (auto simp: main_calculate_def exit1_def panic_def Let_def
             split: if_splits go_result.splits option.splits)
  from g callLoop_not_nil_nil [of sc "sint (CommSize (Counts first))" sendData recvData
      "SendDatatypeSize (Counts first)" "RecvDatatypeSize (Counts first)" execTimes numCalls 0
      "\<lparr>CallData = Map.empty\<rparr>"]
  obtain bwData where "p = Some bwData"
    by (cases p) (auto simp: GetFromCallsCounts_def)
  with cc g c show ?thesis by blast
qed

lemma main_body_Completed:
  "status (main_body sc outputDir leadRank ext) = Completed \<Longrightarrow>
     \<exists>jobId commCounts callsData jobIdTimeFile execTimes.
       GetJobIdFromLeadRank ext = Inr jobId
       \<and> LoadCommunicatorRawCompactFormatCounts ext = Inr commCounts
       \<and> AnalyzeJobRankCounts ext = Inr callsData
       \<and> GetJobIdFromDataFiles ext = Inr jobIdTimeFile
       \<and> ParseTimingFile ext = Inr execTimes
       \<and> main_body sc outputDir leadRank ext
         = main_calculate sc (filepath_Join outputDir (GetOutputFilename leadRank)) (Create ext)
             commCounts (int (length callsData)) (fst (sendLoop (Map.empty, []) callsData))
             (recvLoop Map.empty callsData) (sort (map fst callsData)) execTimes"
  by (auto simp: main_body_def exit1_def Let_def case_prod_beta sendLoop_allCalls
           split: sum.splits)


lemma GetFromCallsCounts_entry:
  assumes "GetFromCallsCounts sc numCalls ranks s r ss rs t = Return (Some bwData) e"
    and "CallData bwData c = Some cd" and "0 \<le> k" and "k < ranks"
  shows "getf (SendRankBW cd) k = bw (getm s c) (getm t c) k"
    and "getf (RecvRankBW cd) k = bw (getm r c) (getm t c) k"
proof -
  note cl = callLoop_Some [OF assms(1) [unfolded GetFromCallsCounts_def]]
  from cl assms(2) have rng: "0 \<le> c \<and> c < numCalls"
    by (cases "0 \<le> c \<and> c < numCalls") auto
  with cl obtain dc where g: "perCall sc ranks s r ss rs t c = Return (Some dc) None"
    by blast
  with cl rng assms(2) have "dc = cd" by simp
  with GetFromCallCounts_Some [OF g]
  have "rankLoop sc (getm s c) (getm r c) (getm t c) ranks 0 newCallData = Inr cd" by simp
  from rankLoop_Inr [OF this] assms(3,4)
  show "getf (SendRankBW cd) k = bw (getm s c) (getm t c) k"
    and "getf (RecvRankBW cd) k = bw (getm r c) (getm t c) k"
    by (simp_all add: getf_def)
qed

text \<open>
  C8. When the loop body completes for a communicator, the report file holds, for each call
  of \<^verbatim>\<open>callsData\<close> in ascending order, the block of the specification: the header line, the
  line of column headers, one line for each rank from 0 to the communicator size minus one, in
  this order, and one blank line. The two numbers of a line are the bandwidths computed from
  the reduced counts and the times, not the scaled ones, printed with \<^verbatim>\<open>%.2f\<close> and
  separated by a tab.
\<close>

theorem report_format:
  assumes "status (main_body scale_Float64s outputDir leadRank ext) = Completed"
    and "AnalyzeJobRankCounts ext = Inr callsData"
    and "LoadCommunicatorRawCompactFormatCounts ext = Inr (first # others)"
    and "ParseTimingFile ext = Inr execTimes"
  shows "\<exists>f. report (main_body scale_Float64s outputDir leadRank ext) = Some f
           \<and> content f
             = concat (map (\<lambda>callId. spec_block callId
                   (map (\<lambda>rank.
                      (bw (getm (fst (sendLoop (Map.empty, []) callsData)) callId)
                          (getm execTimes callId) rank,
                       bw (getm (recvLoop Map.empty callsData) callId)
                          (getm execTimes callId) rank))
                    [0..sint (CommSize (Counts first)) - 1]))
                 (sort (map fst callsData)))"
proof -
  let ?n = "sint (CommSize (Counts first))"
  let ?s = "fst (sendLoop (Map.empty, []) callsData)"
  let ?r = "recvLoop Map.empty callsData"
  let ?calls = "sort (map fst callsData)"
  let ?pc = "main_body scale_Float64s outputDir leadRank ext"
  let ?path = "filepath_Join outputDir (GetOutputFilename leadRank)"
  from main_body_Completed [OF assms(1)] assms(2-4)
  have pc: "?pc = main_calculate scale_Float64s ?path (Create ext) (first # others)
                    (int (length callsData)) ?s ?r ?calls execTimes"
    by auto
  from main_calculate_Completed [OF assms(1) [unfolded pc]] obtain bwData where
    g: "GetFromCallsCounts scale_Float64s (int (length callsData)) ?n ?s ?r
          (SendDatatypeSize (Counts first)) (RecvDatatypeSize (Counts first)) execTimes
        = Return (Some bwData) None"
    and sv: "?pc = main_save ?path (Create ext) (Some bwData) ?n ?calls"
    unfolding pc by auto
  from main_save_Completed [OF assms(1) [unfolded sv]] obtain writes f where
    w: "writeCalls (Some bwData) ?n ?calls \<lparr>content = [], budget = writes\<rparr> = Inr f"
    and rep: "report ?pc = Some f"
    unfolding sv by auto
  note wc = writeCalls_Inr [OF w]
  have rows: "map (\<lambda>k. (getf (SendRankBW (the (CallData bwData c))) k,
                         getf (RecvRankBW (the (CallData bwData c))) k)) [0..?n - 1]
              = map (\<lambda>rank. (bw (getm ?s c) (getm execTimes c) rank,
                             bw (getm ?r c) (getm execTimes c) rank)) [0..?n - 1]"
    if c: "c \<in> set ?calls" for c
  proof (rule map_cong [OF refl])
    fix k assume "k \<in> set [0..?n - 1]"
    then have k: "0 \<le> k" "k < ?n" by simp_all
    then have "0 < ?n" by simp
    with wc c obtain cd where cd: "CallData bwData c = Some cd" by auto
    from GetFromCallsCounts_entry [OF g cd k] cd
    show "(getf (SendRankBW (the (CallData bwData c))) k,
           getf (RecvRankBW (the (CallData bwData c))) k)
          = (bw (getm ?s c) (getm execTimes c) k, bw (getm ?r c) (getm execTimes c) k)"
      by simp
  qed
  have "map (\<lambda>c. spec_block c
              (map (\<lambda>k. (getf (SendRankBW (the (CallData bwData c))) k,
                          getf (RecvRankBW (the (CallData bwData c))) k)) [0..?n - 1])) ?calls
        = map (\<lambda>callId. spec_block callId
              (map (\<lambda>rank. (bw (getm ?s callId) (getm execTimes callId) rank,
                             bw (getm ?r callId) (getm execTimes callId) rank)) [0..?n - 1]))
            ?calls"
    by (rule map_cong [OF refl]) (simp only: rows)
  with wc have "content f
             = concat (map (\<lambda>callId. spec_block callId
                   (map (\<lambda>rank. (bw (getm ?s callId) (getm execTimes callId) rank,
                                  bw (getm ?r callId) (getm execTimes callId) rank))
                    [0..?n - 1])) ?calls)"
    by simp
  with rep show ?thesis by blast
qed

lemmas report_eval =
  main_body_def main_calculate_def main_save_def writeRanks.simps WriteString_def
  GetFromCallsCounts_def callLoop.simps filepath_Join_def GetOutputFilename_def fmt_d_def
  fmt_2f_def digits.simps exit1_def panic_def ranksOf_def

lemma example_run:
  "main_body spec_scale ''out'' 0 example_externals
   = \<lparr>status = Completed,
      stdout = ''Data successfully saved in out/bandwidth-percall-comm0.md'' @ [nl],
      report = Some \<lparr>content =
          ''# Call 0'' @ [nl] @ ''send BW (B/s)'' @ [tab] @ ''receive BW (B/s)'' @ [nl]
          @ ''100.00'' @ [tab] @ ''50.00'' @ [nl]
          @ ''0.00'' @ [tab] @ ''0.00'' @ [nl]
          @ [nl],
        budget = 6\<rparr>\<rparr>"
  by (simp add: example_externals_def report_eval call_eval)


theorem report_format_witness:
  "status (main_body spec_scale ''out'' 0 example_externals) = Completed
   \<and> (\<exists>f. report (main_body spec_scale ''out'' 0 example_externals) = Some f
          \<and> content f
            = ''# Call 0'' @ [nl] @ ''send BW (B/s)'' @ [tab] @ ''receive BW (B/s)'' @ [nl]
              @ ''100.00'' @ [tab] @ ''50.00'' @ [nl]
              @ ''0.00'' @ [tab] @ ''0.00'' @ [nl]
              @ [nl])"
proof -
  have st: "status (main_body spec_scale ''out'' 0 example_externals) = Completed"
    by (simp add: example_run)
  have a: "AnalyzeJobRankCounts example_externals
             = Inr [(0, \<lparr>counts_SendData = \<lparr>CallCounts = [0 \<mapsto> [(0, [100]), (1, [0])]]\<rparr>,
                  counts_RecvData = \<lparr>CallCounts = [0 \<mapsto> [(0, [20, 30]), (1, [])]]\<rparr>\<rparr>)]"
    and l: "LoadCommunicatorRawCompactFormatCounts example_externals
             = Inr (\<lparr>Counts = \<lparr>CommSize = 2, SendDatatypeSize = 4, RecvDatatypeSize = 4\<rparr>\<rparr> # [])"
    and p: "ParseTimingFile example_externals
             = Inr [0 \<mapsto> [0 \<mapsto> f64_of_int 1, 1 \<mapsto> f64_of_int 1]]"
    by (simp_all add: example_externals_def)
  from report_format [OF st a l p] obtain f where
    r: "report (main_body spec_scale ''out'' 0 example_externals) = Some f"
    and c: "content f
       = concat (map (\<lambda>callId. spec_block callId
                   (map (\<lambda>rank.
                      (bw (getm (fst (sendLoop (Map.empty, [])
                            [(0, \<lparr>counts_SendData = \<lparr>CallCounts = [0 \<mapsto> [(0, [100]), (1, [0])]]\<rparr>,
                              counts_RecvData = \<lparr>CallCounts = [0 \<mapsto> [(0, [20, 30]), (1, [])]]\<rparr>\<rparr>)]))
                            callId)
                          (getm [0 \<mapsto> [0 \<mapsto> f64_of_int 1, 1 \<mapsto> f64_of_int 1]] callId) rank,
                       bw (getm (recvLoop Map.empty
                            [(0, \<lparr>counts_SendData = \<lparr>CallCounts = [0 \<mapsto> [(0, [100]), (1, [0])]]\<rparr>,
                              counts_RecvData = \<lparr>CallCounts = [0 \<mapsto> [(0, [20, 30]), (1, [])]]\<rparr>\<rparr>)])
                            callId)
                          (getm [0 \<mapsto> [0 \<mapsto> f64_of_int 1, 1 \<mapsto> f64_of_int 1]] callId) rank))
                    [0..sint (CommSize (Counts
                       \<lparr>Counts = \<lparr>CommSize = 2, SendDatatypeSize = 4, RecvDatatypeSize = 4\<rparr>\<rparr>)) - 1]))
                 (sort (map fst
                    [(0, \<lparr>counts_SendData = \<lparr>CallCounts = [0 \<mapsto> [(0, [100]), (1, [0])]]\<rparr>,
                      counts_RecvData = \<lparr>CallCounts = [0 \<mapsto> [(0, [20, 30]), (1, [])]]\<rparr>\<rparr>)])))"
    by blast
  have "content f
            = ''# Call 0'' @ [nl] @ ''send BW (B/s)'' @ [tab] @ ''receive BW (B/s)'' @ [nl]
              @ ''100.00'' @ [tab] @ ''50.00'' @ [nl]
              @ ''0.00'' @ [tab] @ ''0.00'' @ [nl]
              @ [nl]"
    unfolding c
    by (simp add: spec_block_def spec_line_def upto_rec1 ranksOf_def fmt_d_def fmt_2f_def
        digits.simps call_eval)
  with st r show ?thesis by blast
qed

text \<open>
  C9. When the first count record has a communicator size, a send datatype size or a receive
  datatype size equal to zero, the loop body ends in \<^verbatim>\<open>os.Exit(1)\<close> with no output file
  created, whatever the scaler would answer; when the parsers have all succeeded, the message
  printed names the first of the three values that is zero.
\<close>

theorem degenerate_dataset_rejected:
  assumes "LoadCommunicatorRawCompactFormatCounts ext = Inr (first # others)"
    and "CommSize (Counts first) = 0 \<or> SendDatatypeSize (Counts first) = 0
         \<or> RecvDatatypeSize (Counts first) = 0"
  shows "status (main_body scale_Float64s outputDir leadRank ext) = Exit 1
         \<and> report (main_body scale_Float64s outputDir leadRank ext) = None
         \<and> (\<forall>other. main_body other outputDir leadRank ext
                     = main_body scale_Float64s outputDir leadRank ext)
         \<and> ((\<exists>jobId callsData jobIdTimeFile execTimes.
                GetJobIdFromLeadRank ext = Inr jobId \<and> AnalyzeJobRankCounts ext = Inr callsData
                \<and> GetJobIdFromDataFiles ext = Inr jobIdTimeFile
                \<and> ParseTimingFile ext = Inr execTimes) \<longrightarrow>
             stdout (main_body scale_Float64s outputDir leadRank ext)
             = (if CommSize (Counts first) = 0 then ''ERROR: invalid number of ranks: 0'' @ [nl]
                else if SendDatatypeSize (Counts first) = 0
                then ''ERROR: invalid send datatype size: 0'' @ [nl]
                else ''ERROR: invalid recv datatype size: 0'' @ [nl]))"
proof -
  have calc: "main_calculate sc path created (first # others) numCalls sendData recvData allCalls t
              = exit1 (if CommSize (Counts first) = 0
                       then ''ERROR: invalid number of ranks: 0'' @ [nl]
                       else if SendDatatypeSize (Counts first) = 0
                       then ''ERROR: invalid send datatype size: 0'' @ [nl]
                       else ''ERROR: invalid recv datatype size: 0'' @ [nl]) None"
    for sc path created numCalls sendData recvData allCalls t
    using assms(2) by (auto simp: main_calculate_def Let_def fmt_d_def digits.simps)
  show ?thesis
    using assms(1)
    by (auto simp: main_body_def calc exit1_def Let_def case_prod_beta
             split: sum.splits)
qed

theorem degenerate_dataset_rejected_witness:
  "SendDatatypeSize (Counts \<lparr>Counts = \<lparr>CommSize = 2, SendDatatypeSize = 0, RecvDatatypeSize = 4\<rparr>\<rparr>) = 0
   \<and> main_body spec_scale ''out'' 0
       (example_externals\<lparr>LoadCommunicatorRawCompactFormatCounts :=
          Inr [\<lparr>Counts = \<lparr>CommSize = 2, SendDatatypeSize = 0, RecvDatatypeSize = 4\<rparr>\<rparr>]\<rparr>)
     = \<lparr>status = Exit 1, stdout = ''ERROR: invalid send datatype size: 0'' @ [nl], report = None\<rparr>"
proof -
  let ?first = "\<lparr>Counts = \<lparr>CommSize = 2, SendDatatypeSize = 0, RecvDatatypeSize = 4\<rparr>\<rparr>"
  let ?ext = "example_externals\<lparr>LoadCommunicatorRawCompactFormatCounts := Inr [?first]\<rparr>"
  let ?pc = "main_body spec_scale ''out'' 0 ?ext"
  have l: "LoadCommunicatorRawCompactFormatCounts ?ext = Inr (?first # [])" by simp
  have z: "CommSize (Counts ?first) = 0 \<or> SendDatatypeSize (Counts ?first) = 0
           \<or> RecvDatatypeSize (Counts ?first) = 0"
    by simp
  have rest: "\<exists>jobId callsData jobIdTimeFile execTimes.
                GetJobIdFromLeadRank ?ext = Inr jobId \<and> AnalyzeJobRankCounts ?ext = Inr callsData
                \<and> GetJobIdFromDataFiles ?ext = Inr jobIdTimeFile
                \<and> ParseTimingFile ?ext = Inr execTimes"
    by (simp add: example_externals_def)
  from degenerate_dataset_rejected [OF l z, of spec_scale "''out''" 0] rest
  have "status ?pc = Exit 1" "report ?pc = None"
    "stdout ?pc = ''ERROR: invalid send datatype size: 0'' @ [nl]"
    by simp_all
  then have "?pc = \<lparr>status = Exit 1, stdout = ''ERROR: invalid send datatype size: 0'' @ [nl],
                    report = None\<rparr>"
    by (cases ?pc) simp
  then show ?thesis by simp
qed

end
